theory Spec2Isabelle
  imports Main
begin

section \<open>JavaScript values used by \<^verbatim>\<open>scripts/trash.ts\<close>\<close>

text \<open>
  Strings are lists of code units; only the Latin-1 range is represented, which covers
  every separator, digit and white-space character the script looks at.

  A thrown value is either an \<^verbatim>\<open>Error\<close> instance, with its message and the optional
  \<^verbatim>\<open>code\<close> property of Node's \<^verbatim>\<open>ErrnoException\<close>, or any other value, kept as
  the text \<^verbatim>\<open>String(value)\<close> produces.
\<close>

datatype js_error =
    JsError (err_code: "string option") (err_message: string)
  | JsThrown string

text \<open>\<^verbatim>\<open>formatTrashError\<close>, lines 108-113.\<close>

fun formatTrashError :: "js_error \<Rightarrow> string" where
  "formatTrashError (JsError c m) = m"
| "formatTrashError (JsThrown v) = v"

text \<open>\<^verbatim>\<open>isCrossDeviceError\<close>, lines 146-148.\<close>

fun isCrossDeviceError :: "js_error \<Rightarrow> bool" where
  "isCrossDeviceError (JsError c m) = (c = Some ''EXDEV'')"
| "isCrossDeviceError (JsThrown v) = False"

text \<open>
  \<^verbatim>\<open>String.prototype.trim\<close>: the white space of ECMAScript that lies in the Latin-1
  range (tab, line feed, vertical tab, form feed, carriage return, space, no-break space).
\<close>

definition js_whitespace :: "char \<Rightarrow> bool" where
  "js_whitespace c \<longleftrightarrow>
     c \<in> set [CHR 0x09, CHR 0x0A, CHR 0x0B, CHR 0x0C, CHR 0x0D, CHR 0x20, CHR 0xA0]"

definition trim :: "string \<Rightarrow> string" where
  "trim t = rev (dropWhile js_whitespace (rev (dropWhile js_whitespace t)))"

text \<open>Template-literal rendering of a non-negative integer: its decimal digits.\<close>

definition digit_char :: "nat \<Rightarrow> char" where
  "digit_char d = ''0123456789'' ! d"

definition digit_val :: "char \<Rightarrow> nat" where
  "digit_val c = length (takeWhile (\<lambda>d. d \<noteq> c) ''0123456789'')"

fun show_nat :: "nat \<Rightarrow> string" where
  "show_nat n = (if n < 10 then [digit_char n] else show_nat (n div 10) @ [digit_char (n mod 10)])"

declare show_nat.simps [simp del]

fun read_nat :: "nat \<Rightarrow> string \<Rightarrow> nat" where
  "read_nat acc [] = acc"
| "read_nat acc (c # cs) = read_nat (10 * acc + digit_val c) cs"

text \<open>\<^verbatim>\<open>String.prototype.split\<close> with a one-character separator.\<close>

fun splitc :: "char \<Rightarrow> string \<Rightarrow> string list" where
  "splitc c [] = [[]]"
| "splitc c (x # xs) =
     (if x = c then [] # splitc c xs
      else (case splitc c xs of [] \<Rightarrow> [[x]] | seg # segs \<Rightarrow> (x # seg) # segs))"

text \<open>\<^verbatim>\<open>Array.prototype.join\<close>.\<close>

fun join_with :: "string \<Rightarrow> string list \<Rightarrow> string" where
  "join_with sep [] = []"
| "join_with sep [x] = x"
| "join_with sep (x # y # ys) = x @ sep @ join_with sep (y # ys)"

text \<open>
  The iteration order of a JavaScript \<^verbatim>\<open>Set\<close> built by successive \<^verbatim>\<open>add\<close> calls:
  the first occurrence of every element, in insertion order.
\<close>

definition insertion_order :: "'a list \<Rightarrow> 'a list" where
  "insertion_order xs = rev (remdups (rev xs))"

section \<open>The POSIX functions of \<^verbatim>\<open>node:path\<close>\<close>

text \<open>
  The script imports \<^verbatim>\<open>basename\<close>, \<^verbatim>\<open>join\<close>, \<^verbatim>\<open>normalize\<close> and \<^verbatim>\<open>resolve\<close> from
  the runtime's path module. They are purely lexical; the definitions below follow the
  POSIX variant of the runtime library, segment by segment (\<^verbatim>\<open>normalize\<close> is called
  \<open>normalize_path\<close> here).

  \<^verbatim>\<open>normalizeString\<close> drops empty and \<^verbatim>\<open>.\<close> segments; a \<^verbatim>\<open>..\<close> segment removes the
  segment before it unless there is none or it is itself \<^verbatim>\<open>..\<close>, in which case it is
  kept only when the path is relative.
\<close>

definition norm_step :: "bool \<Rightarrow> string list \<Rightarrow> string \<Rightarrow> string list" where
  "norm_step allowAboveRoot res seg =
     (if seg = [] \<or> seg = ''.'' then res
      else if seg = ''..'' then
        (if res \<noteq> [] \<and> last res \<noteq> ''..'' then butlast res
         else if allowAboveRoot then res @ [''..''] else res)
      else res @ [seg])"

definition normalizeString :: "string \<Rightarrow> bool \<Rightarrow> string" where
  "normalizeString path allowAboveRoot =
     join_with ''/'' (foldl (norm_step allowAboveRoot) [] (splitc CHR ''/'' path))"

definition normalize_path :: "string \<Rightarrow> string" where
  "normalize_path path =
     (if path = [] then ''.''
      else
        let isAbsolute = (hd path = CHR ''/'');
            trailingSeparator = (last path = CHR ''/'');
            p = normalizeString path (\<not> isAbsolute)
        in if p = [] then (if isAbsolute then ''/'' else if trailingSeparator then ''./'' else ''.'')
           else (if isAbsolute then ''/'' else []) @ p @ (if trailingSeparator then ''/'' else []))"

text \<open>
  \<^verbatim>\<open>resolve\<close> walks its arguments from the right, and then the working directory, until
  the accumulated path is absolute; empty arguments are skipped.
\<close>

fun resolve_acc :: "string list \<Rightarrow> string \<Rightarrow> string \<times> bool" where
  "resolve_acc [] resolvedPath = (resolvedPath, False)"
| "resolve_acc (path # more) resolvedPath =
     (if path = [] then resolve_acc more resolvedPath
      else if hd path = CHR ''/'' then (path @ ''/'' @ resolvedPath, True)
      else resolve_acc more (path @ ''/'' @ resolvedPath))"

definition resolve :: "string \<Rightarrow> string list \<Rightarrow> string" where
  "resolve cwd args =
     (case resolve_acc (rev args @ [cwd]) [] of
        (resolvedPath, resolvedAbsolute) \<Rightarrow>
          let p = normalizeString resolvedPath (\<not> resolvedAbsolute)
          in if resolvedAbsolute then ''/'' @ p else if p \<noteq> [] then p else ''.'')"

definition join :: "string list \<Rightarrow> string" where
  "join args =
     (case filter (\<lambda>arg. arg \<noteq> []) args of
        [] \<Rightarrow> ''.''
      | parts \<Rightarrow> normalize_path (join_with ''/'' parts))"

definition basename :: "string \<Rightarrow> string" where
  "basename path =
     rev (takeWhile (\<lambda>c. c \<noteq> CHR ''/'') (dropWhile (\<lambda>c. c = CHR ''/'') (rev path)))"

section \<open>The world the script acts on\<close>

text \<open>
  The file system is seen through the path strings handed to it: a string either names
  nothing or names an item with some content (for a directory, everything beneath it,
  which moves with it). Different strings are different names, and a call changes the
  names it is given only: that a path beneath a moved directory goes with it, and that two
  spellings (or a symbolic link) reach the same item, is outside the model. What is proved
  below about the paths a call is given (its source and its destination) does not depend on
  this; what a state says about any other path is a statement about the model.
\<close>

type_synonym content = string
type_synonym filesystem = "string \<Rightarrow> content option"

text \<open>
  What \<^verbatim>\<open>readProcessStream\<close> can observe of the value \<^verbatim>\<open>proc.stderr\<close>: nothing
  (a falsy value), or an object that may carry a \<^verbatim>\<open>text\<close> method (which throws, or
  yields a nullish value or a string) and that \<^verbatim>\<open>new Response(stream).text()\<close> may
  or may not be able to read.
\<close>

datatype proc_stream =
    NoStream
  | Stream (text_method: "(js_error + string option) option")
           (response_text: "(js_error + string) option")

text \<open>
  \<^verbatim>\<open>Bun.spawn\<close> followed by waiting for the child: the spawn throws, or the child
  exits with a status, leaves a standard-error stream and may have changed the file system.
\<close>

datatype spawn_result =
    SpawnThrew js_error
  | Exited int proc_stream filesystem

text \<open>The calls the script makes that reach outside the process, in order.\<close>

datatype event =
    EvSpawn "string list"
  | EvRename string string
  | EvCopy string string
  | EvRemove string

record environment =
  cwd :: string
  env_HOME :: "string option"
  env_PATH :: "string option"
  env_HOMEBREW_PREFIX :: "string option"
  spawn :: "string list \<Rightarrow> filesystem \<Rightarrow> spawn_result"
  date_now :: "nat \<Rightarrow> nat"
  rename_fault :: "filesystem \<Rightarrow> string \<Rightarrow> string \<Rightarrow> js_error option"
  cp_fault :: "filesystem \<Rightarrow> string \<Rightarrow> string \<Rightarrow> js_error option"
  rm_fault :: "filesystem \<Rightarrow> string \<Rightarrow> js_error option"

text \<open>
  The mutable part: the file system, the module variable \<^verbatim>\<open>cachedTrashCliCommand\<close>
  (\<open>None\<close> is \<^verbatim>\<open>undefined\<close>, \<open>Some None\<close> is \<^verbatim>\<open>null\<close>), the number of
  \<^verbatim>\<open>Date.now()\<close> readings taken so far, and the trace of outside calls.
\<close>

record state =
  fs :: filesystem
  cachedTrashCliCommand :: "string option option"
  clock_reads :: nat
  trace :: "event list"

record options =
  allowMissing :: bool
  refusePaths :: "string list option"

record MoveResult =
  missing :: "string list"
  errors :: "string list"

record existing_item =
  raw :: string
  absolute :: string

subsection \<open>\<^verbatim>\<open>node:fs\<close>\<close>

definition existsSync :: "state \<Rightarrow> string \<Rightarrow> bool" where
  "existsSync s path \<longleftrightarrow> fs s path \<noteq> None"

text \<open>
  The error a call throws when its source names nothing. The runtime writes the paths of
  the failed call between single quotes:
  \<^verbatim>\<open>ENOENT: no such file or directory, rename '/work/a.txt' -> '/home/u/.Trash/a.txt'\<close>.
\<close>

definition quoted :: "string \<Rightarrow> string" where
  "quoted path = [CHR 0x27] @ path @ [CHR 0x27]"

definition enoent :: "string \<Rightarrow> js_error" where
  "enoent syscall = JsError (Some ''ENOENT'') (''ENOENT: no such file or directory, '' @ syscall)"

text \<open>
  Each call is recorded in the trace. A call fails when its source names nothing, or when
  the environment says so (\<open>rename_fault\<close> and the like: permissions, devices); a call
  that fails leaves the file system as it was. The result is the error thrown, if any.
\<close>

definition renameSync :: "environment \<Rightarrow> string \<Rightarrow> string \<Rightarrow> state \<Rightarrow> js_error option \<times> state" where
  "renameSync env src dst s =
     (let s1 = s\<lparr>trace := trace s @ [EvRename src dst]\<rparr> in
      case fs s src of
        None \<Rightarrow> (Some (enoent (''rename '' @ quoted src @ '' -> '' @ quoted dst)), s1)
      | Some c \<Rightarrow>
          (case rename_fault env (fs s) src dst of
             Some e \<Rightarrow> (Some e, s1)
           | None \<Rightarrow> (None, s1\<lparr>fs := (fs s)(src := None, dst := Some c)\<rparr>)))"

definition cpSync :: "environment \<Rightarrow> string \<Rightarrow> string \<Rightarrow> state \<Rightarrow> js_error option \<times> state" where
  "cpSync env src dst s =
     (let s1 = s\<lparr>trace := trace s @ [EvCopy src dst]\<rparr> in
      case fs s src of
        None \<Rightarrow> (Some (enoent (''cp '' @ quoted src)), s1)
      | Some c \<Rightarrow>
          (case cp_fault env (fs s) src dst of
             Some e \<Rightarrow> (Some e, s1)
           | None \<Rightarrow> (None, s1\<lparr>fs := (fs s)(dst := Some c)\<rparr>)))"

text \<open>\<^verbatim>\<open>rmSync\<close> with \<^verbatim>\<open>force: true\<close>: a path that names nothing is not an error.\<close>

definition rmSync :: "environment \<Rightarrow> string \<Rightarrow> state \<Rightarrow> js_error option \<times> state" where
  "rmSync env src s =
     (let s1 = s\<lparr>trace := trace s @ [EvRemove src]\<rparr> in
      case rm_fault env (fs s) src of
        Some e \<Rightarrow> (Some e, s1)
      | None \<Rightarrow> (None, s1\<lparr>fs := (fs s)(src := None)\<rparr>))"

section \<open>\<^verbatim>\<open>scripts/trash.ts\<close>\<close>

text \<open>\<^verbatim>\<open>resolvePath\<close>, lines 115-120.\<close>

definition resolvePath :: "environment \<Rightarrow> string \<Rightarrow> string \<Rightarrow> string" where
  "resolvePath env baseDir input =
     (if input \<noteq> [] \<and> hd input = CHR ''/'' then input
      else resolve (cwd env) [baseDir, input])"

text \<open>\<^verbatim>\<open>getTrashDirectory\<close>, lines 122-132.\<close>

definition getTrashDirectory :: "environment \<Rightarrow> state \<Rightarrow> string option" where
  "getTrashDirectory env s =
     (case env_HOME env of
        None \<Rightarrow> None
      | Some home \<Rightarrow>
          if home = [] then None
          else let trash = join [home, ''.Trash'']
               in if \<not> existsSync s trash then None else Some trash)"

text \<open>
  \<^verbatim>\<open>buildTrashTarget\<close>, lines 134-144. The \<^verbatim>\<open>while\<close> loop need not end when every
  candidate name is taken, so it is a partial function: \<open>None\<close> is the loop that never
  returns.
\<close>

partial_function (option) buildTrashTarget_loop ::
  "filesystem \<Rightarrow> string \<Rightarrow> string \<Rightarrow> nat \<Rightarrow> nat \<Rightarrow> string \<Rightarrow> string option" where
  "buildTrashTarget_loop files trashDir baseName timestamp attempt candidate =
     (if files candidate \<noteq> None
      then buildTrashTarget_loop files trashDir baseName timestamp (attempt + 1)
             (join [trashDir,
                    baseName @ ''-'' @ show_nat timestamp @
                      (if attempt > 0 then ''-'' @ show_nat attempt else [])])
      else Some candidate)"

declare buildTrashTarget_loop.simps [code]

definition buildTrashTarget ::
  "environment \<Rightarrow> string \<Rightarrow> string \<Rightarrow> state \<Rightarrow> (string \<times> state) option" where
  "buildTrashTarget env trashDir absolutePath s =
     (let baseName = basename absolutePath;
          timestamp = date_now env (clock_reads s);
          s1 = s\<lparr>clock_reads := clock_reads s + 1\<rparr>
      in map_option (\<lambda>candidate. (candidate, s1))
           (buildTrashTarget_loop (fs s) trashDir baseName timestamp 0 (join [trashDir, baseName])))"

text \<open>\<^verbatim>\<open>readProcessStream\<close>, lines 198-221.\<close>

fun readProcessStream :: "proc_stream \<Rightarrow> string" where
  "readProcessStream NoStream = []"
| "readProcessStream (Stream (Some (Inr (Some t))) rt) = t"
| "readProcessStream (Stream (Some (Inr None)) rt) = []"
| "readProcessStream (Stream tm (Some (Inr t))) = t"
| "readProcessStream (Stream tm rt) = []"

text \<open>
  \<^verbatim>\<open>findTrashCliCommand\<close>, lines 150-196. The help invocation of a candidate is taken
  to leave the file system alone; only its exit status is looked at.
\<close>

definition candidateNames :: "string list" where
  "candidateNames = [''trash-put'', ''trash'']"

definition searchDirs :: "environment \<Rightarrow> string list" where
  "searchDirs env =
     insertion_order
       ((case env_PATH env of
           None \<Rightarrow> []
         | Some path \<Rightarrow>
             if path = [] then []
             else filter (\<lambda>segment. segment \<noteq> []) (splitc CHR '':'' path))
        @ [join [case env_HOMEBREW_PREFIX env of None \<Rightarrow> ''/opt/homebrew'' | Some prefix \<Rightarrow> prefix,
                 ''opt'', ''trash'', ''bin''],
           ''/usr/local/opt/trash/bin''])"

definition candidatePaths :: "environment \<Rightarrow> string list" where
  "candidatePaths env =
     insertion_order
       (concat (map (\<lambda>name. name # map (\<lambda>dir. join [dir, name]) (searchDirs env)) candidateNames))"

fun probeCandidates :: "environment \<Rightarrow> string list \<Rightarrow> state \<Rightarrow> string option \<times> state" where
  "probeCandidates env [] s = (None, s\<lparr>cachedTrashCliCommand := Some None\<rparr>)"
| "probeCandidates env (candidate # rest) s =
     (let s1 = s\<lparr>trace := trace s @ [EvSpawn [candidate, ''--help'']]\<rparr> in
      case spawn env [candidate, ''--help''] (fs s) of
        SpawnThrew e \<Rightarrow> probeCandidates env rest s1
      | Exited exitCode strm files \<Rightarrow>
          if exitCode = 0 \<or> exitCode = 1
          then (Some candidate, s1\<lparr>cachedTrashCliCommand := Some (Some candidate)\<rparr>)
          else probeCandidates env rest s1)"

definition findTrashCliCommand :: "environment \<Rightarrow> state \<Rightarrow> string option \<times> state" where
  "findTrashCliCommand env s =
     (case cachedTrashCliCommand s of
        Some cached \<Rightarrow> (cached, s)
      | None \<Rightarrow> probeCandidates env (candidatePaths env) s)"

text \<open>
  \<^verbatim>\<open>movePathsToTrash\<close>, lines 18-106, in the order of the source.

  Lines 26-31: the set of refused canonical paths.
\<close>

definition refuseCanonicals :: "environment \<Rightarrow> string \<Rightarrow> options \<Rightarrow> string list" where
  "refuseCanonicals env baseDir opts =
     insertion_order
       ([normalize_path ''/'', normalize_path (resolve (cwd env) [baseDir])]
        @ map (\<lambda>p. normalize_path (resolve (cwd env) [baseDir, p]))
            (case refusePaths opts of None \<Rightarrow> [] | Some ps \<Rightarrow> ps))"

text \<open>
  Lines 33-52: the classification loop. \<open>Inl\<close> is the early return of line 38;
  \<open>Inr\<close> carries the arrays \<^verbatim>\<open>missing\<close> and \<^verbatim>\<open>existing\<close> at the end of the loop.
\<close>

fun classifyPaths ::
  "environment \<Rightarrow> state \<Rightarrow> string \<Rightarrow> options \<Rightarrow> string list \<Rightarrow> string list \<Rightarrow> existing_item list
     \<Rightarrow> MoveResult + (string list \<times> existing_item list)" where
  "classifyPaths env s baseDir opts [] missing_acc existing = Inr (missing_acc, existing)"
| "classifyPaths env s baseDir opts (rawPath # rest) missing_acc existing =
     (let absolute = resolvePath env baseDir rawPath;
          canonical = normalize_path absolute
      in if canonical \<in> set (refuseCanonicals env baseDir opts)
         then Inl \<lparr>missing = [], errors = [''Refusing to trash protected path: '' @ rawPath]\<rparr>
         else if \<not> existsSync s absolute
         then (if \<not> allowMissing opts
               then classifyPaths env s baseDir opts rest (missing_acc @ [rawPath]) existing
               else classifyPaths env s baseDir opts rest missing_acc existing)
         else classifyPaths env s baseDir opts rest missing_acc
                (existing @ [\<lparr>raw = rawPath, absolute = absolute\<rparr>]))"

text \<open>
  Lines 59-76: the helper invocation. \<open>Some errs\<close> is a \<^verbatim>\<open>return\<close> with these
  \<^verbatim>\<open>errors\<close>; \<open>None\<close> is control leaving the \<^verbatim>\<open>if\<close> block at line 76.
\<close>

definition runTrashCli ::
  "environment \<Rightarrow> string \<Rightarrow> existing_item list \<Rightarrow> state \<Rightarrow> string list option \<times> state" where
  "runTrashCli env trashCliCommand existing s =
     (let cliArgs = trashCliCommand # map absolute existing;
          s1 = s\<lparr>trace := trace s @ [EvSpawn cliArgs]\<rparr>
      in case spawn env cliArgs (fs s) of
           SpawnThrew error \<Rightarrow> (Some [formatTrashError error], s1)
         | Exited exitCode strm files \<Rightarrow>
             let stderrText = readProcessStream strm;
                 s2 = s1\<lparr>fs := files\<rparr>
             in if exitCode = 0 then (Some [], s2)
                else if length (trim stderrText) > 0 then (Some [trim stderrText], s2)
                else (None, s2))"

text \<open>
  Lines 88-102: the body of the loop over \<^verbatim>\<open>existing\<close>. The result is the error that
  reaches the outer \<^verbatim>\<open>catch\<close>, if any.
\<close>

definition moveItem ::
  "environment \<Rightarrow> string \<Rightarrow> existing_item \<Rightarrow> state \<Rightarrow> (js_error option \<times> state) option" where
  "moveItem env trashDir item s =
     (case buildTrashTarget env trashDir (absolute item) s of
        None \<Rightarrow> None
      | Some (target, s1) \<Rightarrow>
          (case renameSync env (absolute item) target s1 of
             (None, s2) \<Rightarrow> Some (None, s2)
           | (Some error, s2) \<Rightarrow>
               if isCrossDeviceError error
               then (case cpSync env (absolute item) target s2 of
                       (Some e, s3) \<Rightarrow> Some (Some e, s3)
                     | (None, s3) \<Rightarrow> Some (rmSync env (absolute item) s3))
               else Some (Some error, s2)))"

text \<open>Lines 86-103: the loop, with the array \<^verbatim>\<open>errors\<close> as accumulator.\<close>

fun moveItems ::
  "environment \<Rightarrow> string \<Rightarrow> existing_item list \<Rightarrow> string list \<Rightarrow> state
     \<Rightarrow> (string list \<times> state) option" where
  "moveItems env trashDir [] errors_acc s = Some (errors_acc, s)"
| "moveItems env trashDir (item # rest) errors_acc s =
     (case moveItem env trashDir item s of
        None \<Rightarrow> None
      | Some (None, s1) \<Rightarrow> moveItems env trashDir rest errors_acc s1
      | Some (Some error, s1) \<Rightarrow>
          moveItems env trashDir rest
            (errors_acc @ [''Failed to move '' @ raw item @ '' to Trash: '' @ formatTrashError error]) s1)"

text \<open>Lines 78-105: the direct fallback.\<close>

definition directFallback ::
  "environment \<Rightarrow> existing_item list \<Rightarrow> string list \<Rightarrow> state \<Rightarrow> (MoveResult \<times> state) option" where
  "directFallback env existing missing_acc s =
     (case getTrashDirectory env s of
        None \<Rightarrow>
          Some (\<lparr>missing = missing_acc,
                 errors = [''Unable to locate macOS Trash directory (HOME/.Trash).'']\<rparr>, s)
      | Some trashDir \<Rightarrow>
          if trashDir = []
          then Some (\<lparr>missing = missing_acc,
                      errors = [''Unable to locate macOS Trash directory (HOME/.Trash).'']\<rparr>, s)
          else (case moveItems env trashDir existing [] s of
                  None \<Rightarrow> None
                | Some (errs, s1) \<Rightarrow> Some (\<lparr>missing = missing_acc, errors = errs\<rparr>, s1)))"

text \<open>Lines 54-105: what follows the classification loop.\<close>

definition moveExisting ::
  "environment \<Rightarrow> existing_item list \<Rightarrow> string list \<Rightarrow> state \<Rightarrow> (MoveResult \<times> state) option" where
  "moveExisting env existing missing_acc s =
     (if length existing = 0 then Some (\<lparr>missing = missing_acc, errors = []\<rparr>, s)
      else
        (case findTrashCliCommand env s of
           (trashCliCommand, s1) \<Rightarrow>
             (case trashCliCommand of
                None \<Rightarrow> directFallback env existing missing_acc s1
              | Some command \<Rightarrow>
                  if command = [] then directFallback env existing missing_acc s1
                  else (case runTrashCli env command existing s1 of
                          (Some errs, s2) \<Rightarrow> Some (\<lparr>missing = missing_acc, errors = errs\<rparr>, s2)
                        | (None, s2) \<Rightarrow> directFallback env existing missing_acc s2))))"

definition movePathsToTrash ::
  "environment \<Rightarrow> string list \<Rightarrow> string \<Rightarrow> options \<Rightarrow> state \<Rightarrow> (MoveResult \<times> state) option" where
  "movePathsToTrash env paths baseDir opts s =
     (case classifyPaths env s baseDir opts paths [] [] of
        Inl refusal \<Rightarrow> Some (refusal, s)
      | Inr (missing_acc, existing) \<Rightarrow> moveExisting env existing missing_acc s)"

section \<open>Notions of the specification\<close>

text \<open>
  A raw input is protected when its canonical absolute form, as line 35 computes it, is a
  member of the refused set.
\<close>

definition isProtected :: "environment \<Rightarrow> string \<Rightarrow> options \<Rightarrow> string \<Rightarrow> bool" where
  "isProtected env baseDir opts rawPath \<longleftrightarrow>
     normalize_path (resolvePath env baseDir rawPath) \<in> set (refuseCanonicals env baseDir opts)"

text \<open>
  The inputs of a batch that do not exist, those that do, and the ``to move'' set that the
  classification loop builds from the latter.
\<close>

definition nonexistentPaths :: "environment \<Rightarrow> state \<Rightarrow> string \<Rightarrow> string list \<Rightarrow> string list" where
  "nonexistentPaths env s baseDir paths =
     filter (\<lambda>rawPath. \<not> existsSync s (resolvePath env baseDir rawPath)) paths"

definition existingPaths :: "environment \<Rightarrow> state \<Rightarrow> string \<Rightarrow> string list \<Rightarrow> string list" where
  "existingPaths env s baseDir paths =
     filter (\<lambda>rawPath. existsSync s (resolvePath env baseDir rawPath)) paths"

definition toMove :: "environment \<Rightarrow> state \<Rightarrow> string \<Rightarrow> string list \<Rightarrow> existing_item list" where
  "toMove env s baseDir paths =
     map (\<lambda>rawPath. \<lparr>raw = rawPath, absolute = resolvePath env baseDir rawPath\<rparr>)
       (existingPaths env s baseDir paths)"

text \<open>
  The destination names in the order the specification gives them: the base name, the base
  name with the timestamp, then the same with the numeric suffixes 1, 2, ...
\<close>

definition candidateName :: "string \<Rightarrow> nat \<Rightarrow> nat \<Rightarrow> string" where
  "candidateName baseName timestamp k =
     (if k = 0 then baseName
      else if k = 1 then baseName @ ''-'' @ show_nat timestamp
      else baseName @ ''-'' @ show_nat timestamp @ ''-'' @ show_nat (k - 1))"

definition trashCandidate :: "string \<Rightarrow> string \<Rightarrow> nat \<Rightarrow> nat \<Rightarrow> string" where
  "trashCandidate trashDir baseName timestamp k = join [trashDir, candidateName baseName timestamp k]"

text \<open>
  The one-segment names that are occupied in a directory.
\<close>

definition occupiedNames :: "filesystem \<Rightarrow> string \<Rightarrow> string set" where
  "occupiedNames files trashDir = {name. CHR ''/'' \<notin> set name \<and> files (join [trashDir, name]) \<noteq> None}"

text \<open>
  A candidate qualifies when its help invocation exits with status 0 or 1; any other
  status, or a spawn that throws, disqualifies it. The candidates a cold probe spawns are
  those before the first qualifying one, and that one.
\<close>

definition candidateQualifies :: "environment \<Rightarrow> filesystem \<Rightarrow> string \<Rightarrow> bool" where
  "candidateQualifies env files candidate =
     (case spawn env [candidate, ''--help''] files of
        SpawnThrew e \<Rightarrow> False
      | Exited exitCode strm files' \<Rightarrow> exitCode = 0 \<or> exitCode = 1)"

definition probedCandidates :: "environment \<Rightarrow> filesystem \<Rightarrow> string list \<Rightarrow> string list" where
  "probedCandidates env files candidates =
     takeWhile (\<lambda>c. \<not> candidateQualifies env files c) candidates @
     (case List.find (candidateQualifies env files) candidates of None \<Rightarrow> [] | Some c \<Rightarrow> [c])"

text \<open>
  The sources of the renames recorded in a trace, and the observable part of an outcome:
  the result, the trace and the content of chosen paths.
\<close>

fun renameSources :: "event list \<Rightarrow> string list" where
  "renameSources [] = []"
| "renameSources (EvRename src dst # es) = src # renameSources es"
| "renameSources (e # es) = renameSources es"

definition observe ::
  "string list \<Rightarrow> ('a \<times> state) option \<Rightarrow> ('a \<times> event list \<times> content option list) option" where
  "observe probes outcome = map_option (\<lambda>(r, s). (r, trace s, map (fs s) probes)) outcome"

section \<open>Auxiliary notions\<close>

text \<open>
  A single path segment that normalization leaves alone, and what \<open>join\<close> puts in front
  of such a segment.
\<close>

definition plainName :: "string \<Rightarrow> bool" where
  "plainName n \<longleftrightarrow> n \<noteq> [] \<and> CHR ''/'' \<notin> set n \<and> n \<noteq> ''.'' \<and> n \<noteq> ''..''"

definition joinPrefix :: "string \<Rightarrow> string" where
  "joinPrefix t =
     (if t = [] then []
      else (if hd t = CHR ''/'' then ''/'' else []) @
           (let segs = foldl (norm_step (hd t \<noteq> CHR ''/'')) [] (splitc CHR ''/'' t)
            in if segs = [] then [] else join_with ''/'' segs @ ''/''))"

section \<open>A concrete world\<close>

text \<open>
  A process started in \<^verbatim>\<open>/\<close> with no trash helper installed (every spawn fails), a
  clock that stands still and system calls that fail only for want of a source; and a
  file system with a work tree and a trash directory.
\<close>

definition demo_env :: environment where
  "demo_env = \<lparr>cwd = ''/'', env_HOME = Some ''/home/u'', env_PATH = Some ''/usr/bin'',
     env_HOMEBREW_PREFIX = None,
     spawn = (\<lambda>argv files. SpawnThrew (JsError (Some ''ENOENT'') ''Executable not found in $PATH'')),
     date_now = (\<lambda>i. 1700000000000),
     rename_fault = (\<lambda>files src dst. None),
     cp_fault = (\<lambda>files src dst. None),
     rm_fault = (\<lambda>files src. None)\<rparr>"

definition demo_state :: state where
  "demo_state = \<lparr>fs = [''/work/a.txt'' \<mapsto> ''alpha'', ''/work/b/a.txt'' \<mapsto> ''beta'', ''/home/u/.Trash'' \<mapsto> ''<dir>''],
     cachedTrashCliCommand = None, clock_reads = 0, trace = []\<rparr>"

definition demo_options :: options where
  "demo_options = \<lparr>allowMissing = False, refusePaths = Some [''secrets'']\<rparr>"

text \<open>
  Variations: a trash directory where the first two candidate names are taken; a work tree
  with a file under a protected directory; renames that fail across devices or for want of
  permission; a helper found at the third probe, and the state after that probe; a helper
  that exits with a given status and standard-error text and moves nothing; a trash
  directory that already holds an \<^verbatim>\<open>a.txt\<close>, with the probe already done; the base
  directory under the name \<^verbatim>\<open>/work/\<close>, with the probe already done.
\<close>

definition crowded_state :: state where
  "crowded_state =
     demo_state\<lparr>fs := (fs demo_state)
       (''/home/u/.Trash/a.txt'' \<mapsto> ''old'', ''/home/u/.Trash/a.txt-1700000000000'' \<mapsto> ''older'')\<rparr>"

definition secrets_state :: state where
  "secrets_state = demo_state\<lparr>fs := (fs demo_state)(''/work/secrets/key.pem'' \<mapsto> ''key'')\<rparr>"

definition exdev_env :: environment where
  "exdev_env =
     demo_env\<lparr>rename_fault :=
       (\<lambda>files src dst. Some (JsError (Some ''EXDEV'') ''EXDEV: cross-device link not permitted''))\<rparr>"

definition eacces_env :: environment where
  "eacces_env =
     demo_env\<lparr>rename_fault :=
       (\<lambda>files src dst. if src = ''/work/a.txt''
                         then Some (JsError (Some ''EACCES'') ''EACCES: permission denied'')
                         else None)\<rparr>"

definition probe_env :: environment where
  "probe_env =
     demo_env\<lparr>spawn :=
       (\<lambda>argv files.
          if argv = [''/usr/bin/trash-put'', ''--help''] then Exited 2 NoStream files
          else if argv = [''/opt/homebrew/opt/trash/bin/trash-put'', ''--help'']
          then Exited 1 NoStream files
          else SpawnThrew (JsError (Some ''ENOENT'') ''Executable not found in $PATH''))\<rparr>"

definition probed_state :: state where
  "probed_state =
     demo_state\<lparr>cachedTrashCliCommand := Some (Some ''/opt/homebrew/opt/trash/bin/trash-put''),
                trace := [EvSpawn [''trash-put'', ''--help''],
                          EvSpawn [''/usr/bin/trash-put'', ''--help''],
                          EvSpawn [''/opt/homebrew/opt/trash/bin/trash-put'', ''--help'']]\<rparr>"

definition helper_env :: "int \<Rightarrow> string \<Rightarrow> environment" where
  "helper_env exitCode stderrText =
     demo_env\<lparr>spawn :=
       (\<lambda>argv files. Exited exitCode (Stream (Some (Inr (Some stderrText))) None) files)\<rparr>"

definition item_a :: existing_item where
  "item_a = \<lparr>raw = ''a.txt'', absolute = ''/work/a.txt''\<rparr>"

definition item_b_a :: existing_item where
  "item_b_a = \<lparr>raw = ''b/a.txt'', absolute = ''/work/b/a.txt''\<rparr>"


definition base_dir_state :: state where
  "base_dir_state =
     demo_state\<lparr>fs := (fs demo_state)(''/work/'' \<mapsto> ''<dir>''),
                cachedTrashCliCommand := Some None\<rparr>"

section \<open>Evaluation and basic facts\<close>

lemmas path_eval =
  normalize_path_def normalizeString_def norm_step_def resolve_def resolvePath_def
  join_def basename_def insertion_order_def refuseCanonicals_def Let_def

lemmas world_eval =
  moveExisting_def findTrashCliCommand_def candidatePaths_def searchDirs_def candidateNames_def
  runTrashCli_def directFallback_def getTrashDirectory_def existsSync_def moveItem_def
  buildTrashTarget_def buildTrashTarget_loop.simps renameSync_def cpSync_def rmSync_def
  enoent_def quoted_def show_nat.simps digit_char_def trim_def js_whitespace_def

lemmas demo_defs =
  demo_env_def demo_state_def demo_options_def

lemma set_insertion_order [simp]: "set (insertion_order xs) = set xs"
  by (simp add: insertion_order_def)

lemma set_refuseCanonicals:
  "set (refuseCanonicals env baseDir opts) =
     {normalize_path ''/'', normalize_path (resolve (cwd env) [baseDir])} \<union>
     (\<lambda>p. normalize_path (resolve (cwd env) [baseDir, p])) ` set (case refusePaths opts of None \<Rightarrow> [] | Some ps \<Rightarrow> ps)"
  by (auto simp add: refuseCanonicals_def)

lemma normalize_path_not_Nil: "normalize_path p \<noteq> []"
  by (simp add: normalize_path_def Let_def)

lemma join_not_Nil: "join args \<noteq> []"
  by (simp add: join_def normalize_path_not_Nil split: list.splits)

lemma getTrashDirectory_not_Nil: "getTrashDirectory env s = Some trashDir \<Longrightarrow> trashDir \<noteq> []"
  by (auto simp add: getTrashDirectory_def Let_def join_not_Nil split: option.splits if_splits)

lemma count_list_filter: "count_list (filter P xs) x = (if P x then count_list xs x else 0)"
  by (induction xs) auto

section \<open>Decimal digits and path segments\<close>

lemma digit_val_digit_char: "d < 10 \<Longrightarrow> digit_val (digit_char d) = d"
proof -
  assume "d < 10"
  then have "d \<in> {0, 1, 2, 3, 4, 5, 6, 7, 8, 9}" by auto
  then show ?thesis
    by (auto simp add: digit_val_def digit_char_def)
qed

lemma read_nat_append: "read_nat acc (xs @ ys) = read_nat (read_nat acc xs) ys"
  by (induction xs arbitrary: acc) simp_all

lemma read_nat_show_nat: "read_nat 0 (show_nat n) = n"
proof (induction n rule: show_nat.induct)
  case (1 n)
  show ?case
  proof (cases "n < 10")
    case True
    then show ?thesis
      by (subst show_nat.simps) (simp add: digit_val_digit_char)
  next
    case False
    with 1 have ih: "read_nat 0 (show_nat (n div 10)) = n div 10" by simp
    have "show_nat n = show_nat (n div 10) @ [digit_char (n mod 10)]"
      using False by (subst show_nat.simps) simp
    then show ?thesis
      by (simp add: read_nat_append ih digit_val_digit_char)
  qed
qed

lemma show_nat_inj: "show_nat m = show_nat n \<Longrightarrow> m = n"
  by (metis read_nat_show_nat)

lemma digit_char_no_slash: "d < 10 \<Longrightarrow> CHR ''/'' \<noteq> digit_char d"
proof -
  assume "d < 10"
  then have "d \<in> {0, 1, 2, 3, 4, 5, 6, 7, 8, 9}" by auto
  then show ?thesis
    by (auto simp add: digit_char_def)
qed

lemma show_nat_no_slash: "CHR ''/'' \<notin> set (show_nat n)"
proof (induction n rule: show_nat.induct)
  case (1 n)
  show ?case
  proof (cases "n < 10")
    case True
    then show ?thesis
      by (subst show_nat.simps) (simp add: digit_char_no_slash)
  next
    case False
    with 1 have "CHR ''/'' \<notin> set (show_nat (n div 10))" by simp
    moreover have "show_nat n = show_nat (n div 10) @ [digit_char (n mod 10)]"
      using False by (subst show_nat.simps) simp
    ultimately show ?thesis
      by (simp add: digit_char_no_slash)
  qed
qed

lemma basename_no_slash: "CHR ''/'' \<notin> set (basename p)"
proof -
  have "\<forall>c \<in> set (takeWhile (\<lambda>c. c \<noteq> CHR ''/'') xs). c \<noteq> CHR ''/''" for xs
    by (auto dest: set_takeWhileD)
  then show ?thesis
    by (auto simp add: basename_def)
qed

lemma splitc_not_Nil: "splitc c xs \<noteq> []"
  by (induction xs) (auto split: list.splits)

lemma splitc_append_sep: "splitc c (xs @ c # ys) = splitc c xs @ splitc c ys"
proof (induction xs)
  case Nil
  show ?case by simp
next
  case (Cons x xs)
  obtain seg segs where "splitc c xs = seg # segs"
    using splitc_not_Nil [of c xs] by (cases "splitc c xs") auto
  with Cons show ?case by simp
qed

lemma splitc_no_sep: "c \<notin> set xs \<Longrightarrow> splitc c xs = [xs]"
  by (induction xs) auto

lemma join_with_snoc:
  "join_with sep (xs @ [n]) = (if xs = [] then n else join_with sep xs @ sep @ n)"
  by (induction sep xs rule: join_with.induct) simp_all

lemma norm_step_plain: "plainName n \<Longrightarrow> norm_step allow res n = res @ [n]"
  by (simp add: norm_step_def plainName_def)

lemma normalizeString_append_plain:
  assumes "plainName n"
  shows "normalizeString (t @ ''/'' @ n) allow =
           (let segs = foldl (norm_step allow) [] (splitc CHR ''/'' t)
            in if segs = [] then n else join_with ''/'' segs @ ''/'' @ n)"
proof -
  from assms have "CHR ''/'' \<notin> set n" by (simp add: plainName_def)
  then have "splitc CHR ''/'' (t @ ''/'' @ n) = splitc CHR ''/'' t @ [n]"
    using splitc_append_sep [of "CHR ''/''" t n] by (simp add: splitc_no_sep)
  then show ?thesis
    using assms by (simp add: normalizeString_def norm_step_plain join_with_snoc Let_def)
qed

lemma plainName_ends:
  assumes "plainName n"
  shows "n \<noteq> []" and "last n \<noteq> CHR ''/''" and "hd n \<noteq> CHR ''/''"
proof -
  from assms show "n \<noteq> []" by (simp add: plainName_def)
  from assms show "last n \<noteq> CHR ''/''"
    by (metis last_in_set plainName_def)
  from assms show "hd n \<noteq> CHR ''/''"
    by (metis hd_in_set plainName_def)
qed

lemma normalizeString_plain: "plainName n \<Longrightarrow> normalizeString n allow = n"
  by (simp add: normalizeString_def splitc_no_sep norm_step_plain plainName_def)

lemma normalize_path_append_plain:
  assumes "plainName n" and "t \<noteq> []"
  shows "normalize_path (t @ ''/'' @ n) = joinPrefix t @ n"
proof -
  define p where "p = t @ ''/'' @ n"
  note n = plainName_ends(1,2) [OF assms(1)]
  from assms(2) have hd: "hd p = hd t" by (simp add: p_def)
  from n have last: "last p \<noteq> CHR ''/''" by (simp add: p_def)
  have nonempty: "p \<noteq> []" by (simp add: p_def)
  have ns: "normalizeString p allow =
              (let segs = foldl (norm_step allow) [] (splitc CHR ''/'' t)
               in if segs = [] then n else join_with ''/'' segs @ ''/'' @ n)" for allow
    unfolding p_def by (rule normalizeString_append_plain [OF assms(1)])
  have ns_nonempty: "normalizeString p allow \<noteq> []" for allow
    using n by (simp add: ns Let_def)
  have "normalize_path p = (if hd t = CHR ''/'' then ''/'' else []) @ normalizeString p (hd t \<noteq> CHR ''/'')"
    using nonempty last ns_nonempty by (simp add: normalize_path_def hd Let_def)
  also have "\<dots> = joinPrefix t @ n"
    using assms(2) by (simp add: ns joinPrefix_def Let_def)
  finally show ?thesis by (simp only: p_def)
qed

lemma join_plain:
  assumes "plainName n"
  shows "join [t, n] = joinPrefix t @ n"
proof (cases "t = []")
  case True
  from True assms plainName_ends [OF assms] show ?thesis
    by (simp add: join_def joinPrefix_def normalize_path_def normalizeString_plain)
next
  case False
  note n = plainName_ends(1,2) [OF assms]
  have "join [t, n] = normalize_path (t @ ''/'' @ n)"
    using False n by (simp add: join_def)
  also have "\<dots> = joinPrefix t @ n"
    by (rule normalize_path_append_plain [OF assms False])
  finally show ?thesis .
qed

lemma join_plain_inj:
  "plainName m \<Longrightarrow> plainName n \<Longrightarrow> join [t, m] = join [t, n] \<Longrightarrow> m = n"
  by (simp add: join_plain)

lemma norm_step_nonempty:
  "\<forall>x\<in>set res. x \<noteq> [] \<Longrightarrow> \<forall>x\<in>set (norm_step allow res seg). x \<noteq> []"
  by (auto simp add: norm_step_def dest: in_set_butlastD)

lemma norm_segments_nonempty:
  "\<forall>x\<in>set res. x \<noteq> [] \<Longrightarrow> \<forall>x\<in>set (foldl (norm_step allow) res segs). x \<noteq> []"
proof (induction segs arbitrary: res)
  case Nil
  then show ?case by simp
next
  case (Cons seg segs)
  from norm_step_nonempty [OF Cons.prems] have "\<forall>x\<in>set (norm_step allow res seg). x \<noteq> []" .
  from Cons.IH [OF this] show ?case by simp
qed

lemma join_with_Nil_iff:
  "\<forall>x\<in>set xs. x \<noteq> [] \<Longrightarrow> join_with sep xs = [] \<longleftrightarrow> xs = []"
  by (induction sep xs rule: join_with.induct) simp_all

lemma normalizeString_Nil_iff:
  "normalizeString q allow = [] \<longleftrightarrow> foldl (norm_step allow) [] (splitc CHR ''/'' q) = []"
  unfolding normalizeString_def
  by (rule join_with_Nil_iff) (rule norm_segments_nonempty, simp)

lemma norm_segments_snoc:
  "CHR ''/'' \<notin> set x \<Longrightarrow>
   foldl (norm_step allow) [] (splitc CHR ''/'' (t @ ''/'' @ x)) =
     norm_step allow (foldl (norm_step allow) [] (splitc CHR ''/'' t)) x"
  using splitc_append_sep [of "CHR ''/''" t x] by (simp add: splitc_no_sep)

lemma join_special:
  assumes "t \<noteq> []" and "b \<in> {[], ''.'', ''..''}"
  shows "join [t, b] =
          (let a = (hd t = CHR ''/'');
               segs = foldl (norm_step (\<not> a)) [] (splitc CHR ''/'' t);
               segs' = (if b = ''..'' then norm_step (\<not> a) segs ''..'' else segs);
               trailing = (b = [] \<and> last t = CHR ''/'')
           in if segs' = [] then (if a then ''/'' else if trailing then ''./'' else ''.'')
              else (if a then ''/'' else []) @ join_with ''/'' segs' @ (if trailing then ''/'' else []))"
proof -
  consider "b = []" | "b = ''.''" | "b = ''..''" using assms(2) by auto
  then show ?thesis
  proof cases
    case 1
    with assms(1) have "join [t, b] = normalize_path t" by (simp add: join_def)
    with 1 assms(1) show ?thesis
      by (simp add: normalize_path_def normalizeString_Nil_iff Let_def)
         (simp add: normalizeString_def)
  next
    case 2
    define q where "q = t @ ''/'' @ ''.''"
    have q: "q \<noteq> []" "hd q = hd t" "last q \<noteq> CHR ''/''"
      using assms(1) by (simp_all add: q_def)
    have segs: "foldl (norm_step allow) [] (splitc CHR ''/'' q) =
                  foldl (norm_step allow) [] (splitc CHR ''/'' t)" for allow
      unfolding q_def by (subst norm_segments_snoc) (simp_all add: norm_step_def)
    from 2 assms(1) have "join [t, b] = normalize_path q" by (simp add: join_def q_def)
    with 2 q show ?thesis
      by (simp add: normalize_path_def normalizeString_Nil_iff Let_def segs)
         (simp add: normalizeString_def segs)
  next
    case 3
    define q where "q = t @ ''/'' @ ''..''"
    have q: "q \<noteq> []" "hd q = hd t" "last q \<noteq> CHR ''/''"
      using assms(1) by (simp_all add: q_def)
    have segs: "foldl (norm_step allow) [] (splitc CHR ''/'' q) =
                  norm_step allow (foldl (norm_step allow) [] (splitc CHR ''/'' t)) ''..''" for allow
      unfolding q_def by (subst norm_segments_snoc) simp_all
    from 3 assms(1) have "join [t, b] = normalize_path q" by (simp add: join_def q_def)
    with 3 q show ?thesis
      by (simp add: normalize_path_def normalizeString_Nil_iff Let_def segs)
         (simp add: normalizeString_def segs)
  qed
qed

lemma join_with_butlast:
  "segs \<noteq> [] \<Longrightarrow> butlast segs \<noteq> [] \<Longrightarrow>
   join_with sep segs = join_with sep (butlast segs) @ sep @ last segs"
  using join_with_snoc [of sep "butlast segs" "last segs"] by simp

lemma join_special_differs:
  assumes "t \<noteq> []" and "b \<in> {[], ''.'', ''..''}" and "plainName n"
  shows "join [t, b] \<noteq> join [t, n]"
proof -
  define a where "a = (hd t = CHR ''/'')"
  define segs where "segs = foldl (norm_step (\<not> a)) [] (splitc CHR ''/'' t)"
  define J where "J = join_with ''/'' segs"
  from assms(3) have n: "n \<noteq> []" "n \<noteq> ''.''" "n \<noteq> ''..''" "CHR ''/'' \<notin> set n"
    by (simp_all add: plainName_def)
  have n_slash: "n \<noteq> xs @ ''/'' @ ys" for xs ys
    using n(4) by auto
  have rhs: "join [t, n] = (if a then ''/'' else []) @ (if segs = [] then n else J @ ''/'' @ n)"
    using assms(1) by (simp add: join_plain [OF assms(3)] joinPrefix_def a_def segs_def J_def Let_def)
  have nonempty: "\<forall>x\<in>set segs. x \<noteq> []"
    unfolding segs_def by (rule norm_segments_nonempty) simp
  then have J_Nil: "J = [] \<longleftrightarrow> segs = []"
    unfolding J_def by (rule join_with_Nil_iff)
  define segs' where "segs' = (if b = ''..'' then norm_step (\<not> a) segs ''..'' else segs)"
  define trailing where "trailing = (b = [] \<and> last t = CHR ''/'')"
  have lhs: "join [t, b] =
               (if segs' = [] then (if a then ''/'' else if trailing then ''./'' else ''.'')
                else (if a then ''/'' else []) @ join_with ''/'' segs' @ (if trailing then ''/'' else []))"
    using join_special [OF assms(1,2)]
    by (simp add: Let_def a_def segs_def segs'_def trailing_def)
  have trailing_b: "trailing \<Longrightarrow> segs' = segs"
    by (auto simp add: trailing_def segs'_def)
  have "segs' = segs \<or> segs' = segs @ [''..''] \<or> segs \<noteq> [] \<and> segs' = butlast segs"
    by (simp add: segs'_def norm_step_def)
  then consider (same) "segs' = segs" | (up) "segs' = segs @ [''..'']"
    | (pop) "segs \<noteq> []" "segs' = butlast segs"
    by blast
  then show ?thesis
  proof cases
    case same
    show ?thesis
    proof (cases "segs = []")
      case True
      with same n n_slash [of "''.''" "[]"] show ?thesis
        by (auto simp add: lhs rhs)
    next
      case False
      with same n show ?thesis
        by (auto simp add: lhs rhs J_def)
    qed
  next
    case up
    then have not_trailing: "\<not> trailing"
      using trailing_b by auto
    have "join_with ''/'' (segs @ [''..'']) = (if segs = [] then ''..'' else J @ ''/'' @ ''..'')"
      by (simp add: join_with_snoc J_def)
    with up not_trailing n show ?thesis
      by (auto simp add: lhs rhs)
  next
    case pop
    then have not_trailing: "\<not> trailing"
      using trailing_b by (cases segs rule: rev_cases) auto
    show ?thesis
    proof (cases "butlast segs = []")
      case True
      have "''.'' \<noteq> J @ ''/'' @ n"
      proof
        assume "''.'' = J @ ''/'' @ n"
        then have "length ''.'' = length (J @ ''/'' @ n)"
          by (rule arg_cong)
        with n(1) show False by simp
      qed
      with True pop J_Nil not_trailing show ?thesis
        by (auto simp add: lhs rhs)
    next
      case False
      from join_with_butlast [OF pop(1) False]
      have "J = join_with ''/'' (butlast segs) @ ''/'' @ last segs"
        by (simp add: J_def)
      with pop False not_trailing show ?thesis
        by (auto simp add: lhs rhs)
    qed
  qed
qed

lemma join_differs:
  assumes "CHR ''/'' \<notin> set b" and "plainName n" and "b \<noteq> n"
  shows "join [t, b] \<noteq> join [t, n]"
proof (cases "plainName b")
  case True
  with assms show ?thesis by (simp add: join_plain)
next
  case False
  with assms(1) have special: "b \<in> {[], ''.'', ''..''}"
    by (auto simp add: plainName_def)
  show ?thesis
  proof (cases "t = []")
    case False
    from join_special_differs [OF this special assms(2)] show ?thesis .
  next
    case True
    from assms(2) have "n \<noteq> ''.''" "n \<noteq> ''..''" by (simp_all add: plainName_def)
    moreover from True special have "join [t, b] \<in> {''.'', ''..''}"
      by (auto simp add: join_def normalize_path_def normalizeString_def norm_step_def)
    moreover from True have "join [t, n] = n"
      by (simp add: join_plain [OF assms(2)] joinPrefix_def)
    ultimately show ?thesis by auto
  qed
qed

section \<open>The classification loop\<close>

lemma classifyPaths_refused:
  "List.find (isProtected env baseDir opts) paths = Some offending \<Longrightarrow>
   classifyPaths env s baseDir opts paths missing_acc existing =
     Inl \<lparr>missing = [], errors = [''Refusing to trash protected path: '' @ offending]\<rparr>"
  by (induction paths arbitrary: missing_acc existing)
     (auto simp add: isProtected_def Let_def split: if_splits)

lemma movePathsToTrash_refused:
  "List.find (isProtected env baseDir opts) paths = Some offending \<Longrightarrow>
   movePathsToTrash env paths baseDir opts s =
     Some (\<lparr>missing = [], errors = [''Refusing to trash protected path: '' @ offending]\<rparr>, s)"
  by (simp add: movePathsToTrash_def classifyPaths_refused)

lemma classifyPaths_accepted:
  "\<forall>p\<in>set paths. \<not> isProtected env baseDir opts p \<Longrightarrow>
   classifyPaths env s baseDir opts paths missing_acc existing =
     Inr (missing_acc @ (if allowMissing opts then [] else nonexistentPaths env s baseDir paths),
          existing @ toMove env s baseDir paths)"
  by (induction paths arbitrary: missing_acc existing)
     (simp_all add: isProtected_def nonexistentPaths_def existingPaths_def toMove_def Let_def)

lemma classifyPaths_Inl_iff:
  "(\<exists>r. classifyPaths env s baseDir opts paths missing_acc existing = Inl r) \<longleftrightarrow>
   (\<exists>p\<in>set paths. isProtected env baseDir opts p)"
proof (cases "List.find (isProtected env baseDir opts) paths")
  case None
  then have "\<forall>p\<in>set paths. \<not> isProtected env baseDir opts p"
    by (simp add: find_None_iff)
  then show ?thesis
    by (auto simp add: classifyPaths_accepted)
next
  case (Some offending)
  then have "\<exists>p\<in>set paths. isProtected env baseDir opts p"
    by (auto simp add: find_Some_iff)
  with Some show ?thesis
    by (simp add: classifyPaths_refused)
qed

lemma movePathsToTrash_proceeds:
  "\<forall>p\<in>set paths. \<not> isProtected env baseDir opts p \<Longrightarrow>
   movePathsToTrash env paths baseDir opts s =
     moveExisting env (toMove env s baseDir paths)
       (if allowMissing opts then [] else nonexistentPaths env s baseDir paths) s"
  by (simp add: movePathsToTrash_def classifyPaths_accepted)

lemma count_toMove:
  assumes "existsSync s (resolvePath env baseDir rawPath)"
  shows "count_list (toMove env s baseDir paths)
           \<lparr>raw = rawPath, absolute = resolvePath env baseDir rawPath\<rparr> =
         count_list paths rawPath"
proof -
  have "inj (\<lambda>p. \<lparr>raw = p, absolute = resolvePath env baseDir p\<rparr>)"
    by (rule injI) simp
  from count_list_map_conv [OF this] assms show ?thesis
    by (simp add: toMove_def existingPaths_def count_list_filter)
qed

section \<open>Destination names\<close>

lemma loop_unfold:
  "buildTrashTarget_loop files trashDir baseName timestamp k (trashCandidate trashDir baseName timestamp k) =
     (if files (trashCandidate trashDir baseName timestamp k) \<noteq> None
      then buildTrashTarget_loop files trashDir baseName timestamp (Suc k)
             (trashCandidate trashDir baseName timestamp (Suc k))
      else Some (trashCandidate trashDir baseName timestamp k))"
  by (subst buildTrashTarget_loop.simps) (auto simp add: trashCandidate_def candidateName_def)

lemma loop_finds:
  assumes "a \<le> k"
    and "\<forall>j. a \<le> j \<and> j < k \<longrightarrow> files (trashCandidate trashDir baseName timestamp j) \<noteq> None"
    and "files (trashCandidate trashDir baseName timestamp k) = None"
  shows "buildTrashTarget_loop files trashDir baseName timestamp a
           (trashCandidate trashDir baseName timestamp a) =
         Some (trashCandidate trashDir baseName timestamp k)"
  using assms
proof (induction "k - a" arbitrary: a)
  case 0
  then have "a = k" by simp
  with 0 show ?case by (simp add: loop_unfold)
next
  case (Suc d)
  then have "a < k" by simp
  with Suc.prems have occupied: "files (trashCandidate trashDir baseName timestamp a) \<noteq> None"
    by simp
  have "buildTrashTarget_loop files trashDir baseName timestamp (Suc a)
          (trashCandidate trashDir baseName timestamp (Suc a)) =
        Some (trashCandidate trashDir baseName timestamp k)"
  proof (rule Suc.hyps(1))
    from Suc.hyps(2) show "d = k - Suc a" by simp
    from \<open>a < k\<close> show "Suc a \<le> k" by simp
    from Suc.prems(2)
    show "\<forall>j. Suc a \<le> j \<and> j < k \<longrightarrow> files (trashCandidate trashDir baseName timestamp j) \<noteq> None"
      by simp
    from Suc.prems(3) show "files (trashCandidate trashDir baseName timestamp k) = None" .
  qed
  with occupied show ?case by (simp add: loop_unfold)
qed

lemma plainName_disambiguated:
  assumes "CHR ''/'' \<notin> set baseName" and "CHR ''/'' \<notin> set suffix_digits"
  shows "plainName (baseName @ ''-'' @ show_nat timestamp @ suffix_digits)"
proof -
  define n where "n = baseName @ ''-'' @ show_nat timestamp @ suffix_digits"
  have dash: "CHR ''-'' \<in> set n" by (simp add: n_def)
  have "CHR ''-'' \<notin> set []" "CHR ''-'' \<notin> set ''.''" "CHR ''-'' \<notin> set ''..''" by simp_all
  with dash have "n \<noteq> []" "n \<noteq> ''.''" "n \<noteq> ''..''" by metis+
  moreover have "CHR ''/'' \<notin> set n"
    using assms by (simp add: n_def show_nat_no_slash)
  ultimately have "plainName n" by (simp add: plainName_def)
  then show ?thesis by (simp only: n_def)
qed

lemma trashCandidate_later:
  assumes "CHR ''/'' \<notin> set baseName" and "1 \<le> k"
  shows "trashCandidate trashDir baseName timestamp k =
           joinPrefix trashDir @ baseName @ ''-'' @ show_nat timestamp @
             (if k = 1 then [] else ''-'' @ show_nat (k - 1))"
proof (cases "k = 1")
  case True
  have "plainName (baseName @ ''-'' @ show_nat timestamp @ [])"
    by (rule plainName_disambiguated [OF assms(1)]) simp
  with True show ?thesis
    by (simp add: trashCandidate_def candidateName_def join_plain)
next
  case False
  have "plainName (baseName @ ''-'' @ show_nat timestamp @ (''-'' @ show_nat (k - 1)))"
    by (rule plainName_disambiguated [OF assms(1)]) (simp add: show_nat_no_slash)
  with False assms(2) show ?thesis
    by (simp add: trashCandidate_def candidateName_def join_plain)
qed

lemma trashCandidate_inj:
  assumes "CHR ''/'' \<notin> set baseName" and "1 \<le> j" and "1 \<le> k"
    and "trashCandidate trashDir baseName timestamp j = trashCandidate trashDir baseName timestamp k"
  shows "j = k"
proof -
  from assms have
    "(if j = 1 then [] else ''-'' @ show_nat (j - 1)) = (if k = 1 then [] else ''-'' @ show_nat (k - 1))"
    by (simp add: trashCandidate_later)
  then have "j = 1 \<and> k = 1 \<or> j \<noteq> 1 \<and> k \<noteq> 1 \<and> show_nat (j - 1) = show_nat (k - 1)"
    by (auto split: if_splits)
  with assms(2,3) show ?thesis
    by (auto dest!: show_nat_inj)
qed

lemma trashCandidate_first_differs:
  assumes "CHR ''/'' \<notin> set baseName" and "1 \<le> k"
  shows "trashCandidate trashDir baseName timestamp 0 \<noteq> trashCandidate trashDir baseName timestamp k"
proof -
  define name where "name = baseName @ ''-'' @ show_nat timestamp @
                              (if k = 1 then [] else ''-'' @ show_nat (k - 1))"
  have plain: "plainName name"
    unfolding name_def
    by (rule plainName_disambiguated [OF assms(1)]) (simp add: show_nat_no_slash)
  have "baseName \<noteq> name"
    by (simp add: name_def)
  from join_differs [OF assms(1) plain this, of trashDir] assms(2) show ?thesis
    by (auto simp add: trashCandidate_def candidateName_def name_def)
qed

lemma trashCandidate_distinct:
  assumes "CHR ''/'' \<notin> set baseName" and "i < j"
  shows "trashCandidate trashDir baseName timestamp i \<noteq> trashCandidate trashDir baseName timestamp j"
proof (cases "i = 0")
  case True
  with assms trashCandidate_first_differs [OF assms(1), of j] show ?thesis by simp
next
  case False
  with assms trashCandidate_inj [OF assms(1), of i j] show ?thesis by auto
qed

lemma candidateName_no_slash:
  "CHR ''/'' \<notin> set baseName \<Longrightarrow> CHR ''/'' \<notin> set (candidateName baseName timestamp k)"
  by (simp add: candidateName_def show_nat_no_slash)

lemma candidateName_distinct:
  assumes "i < j"
  shows "candidateName baseName timestamp i \<noteq> candidateName baseName timestamp j"
proof (cases "i = 0")
  case True
  with assms show ?thesis by (simp add: candidateName_def)
next
  case False
  with assms have "show_nat (i - 1) \<noteq> show_nat (j - 1)"
    by (auto dest!: show_nat_inj)
  with False assms show ?thesis by (simp add: candidateName_def)
qed

lemma candidateName_inj: "inj (candidateName baseName timestamp)"
proof (rule injI)
  fix i j
  assume "candidateName baseName timestamp i = candidateName baseName timestamp j"
  with candidateName_distinct [of i j baseName timestamp]
       candidateName_distinct [of j i baseName timestamp]
  show "i = j" by (cases i j rule: linorder_cases) auto
qed

lemma finite_occupiedNames:
  assumes "finite (dom files)"
  shows "finite (occupiedNames files trashDir)"
proof -
  have "inj_on (\<lambda>n. join [trashDir, n]) {n. plainName n}"
    by (rule inj_onI) (auto dest: join_plain_inj)
  with assms have "finite ((\<lambda>n. join [trashDir, n]) -` dom files \<inter> {n. plainName n})"
    by (rule finite_vimage_IntI)
  moreover have "occupiedNames files trashDir \<subseteq>
      {[], ''.'', ''..''} \<union> ((\<lambda>n. join [trashDir, n]) -` dom files \<inter> {n. plainName n})"
    by (auto simp add: occupiedNames_def plainName_def)
  ultimately show ?thesis
    by (auto intro: finite_subset)
qed

lemma free_candidate_exists:
  assumes "finite (occupiedNames files trashDir)" and "CHR ''/'' \<notin> set baseName"
  shows "\<exists>k. files (trashCandidate trashDir baseName timestamp k) = None"
proof (rule ccontr)
  assume "\<not> ?thesis"
  then have "range (candidateName baseName timestamp) \<subseteq> occupiedNames files trashDir"
    using assms(2) by (auto simp add: occupiedNames_def trashCandidate_def candidateName_no_slash)
  with assms(1) have "finite (range (candidateName baseName timestamp))"
    by (rule rev_finite_subset)
  with candidateName_inj [of baseName timestamp] have "finite (UNIV :: nat set)"
    by (rule finite_imageD [rotated])
  then show False by simp
qed

lemma buildTrashTarget_loop_least:
  assumes "finite (occupiedNames files trashDir)" and "CHR ''/'' \<notin> set baseName"
  shows "\<exists>k. buildTrashTarget_loop files trashDir baseName timestamp 0 (join [trashDir, baseName]) =
               Some (trashCandidate trashDir baseName timestamp k) \<and>
             files (trashCandidate trashDir baseName timestamp k) = None \<and>
             (\<forall>j<k. files (trashCandidate trashDir baseName timestamp j) \<noteq> None)"
proof -
  let ?free = "\<lambda>k. files (trashCandidate trashDir baseName timestamp k) = None"
  from free_candidate_exists [OF assms] have ex: "\<exists>k. ?free k" .
  define k where "k = (LEAST k. ?free k)"
  from ex have free: "?free k" unfolding k_def by (rule LeastI_ex)
  have before: "\<forall>j<k. \<not> ?free j"
    unfolding k_def using not_less_Least by blast
  have start: "join [trashDir, baseName] = trashCandidate trashDir baseName timestamp 0"
    by (simp add: trashCandidate_def candidateName_def)
  have "buildTrashTarget_loop files trashDir baseName timestamp 0
          (trashCandidate trashDir baseName timestamp 0) =
        Some (trashCandidate trashDir baseName timestamp k)"
    by (rule loop_finds) (use free before in auto)
  with free before start show ?thesis by auto
qed

lemma buildTrashTarget_loop_free:
  assumes "buildTrashTarget_loop files trashDir baseName timestamp attempt candidate = Some y"
  shows "files y = None"
  using assms
  by (rule buildTrashTarget_loop.raw_induct
        [where P = "\<lambda>files trashDir baseName timestamp attempt candidate y. files y = None", rotated])
     (auto split: if_splits)

lemma buildTrashTarget_SomeD:
  assumes "buildTrashTarget env trashDir absolutePath s = Some (target, s1)"
  shows "fs s target = None" and "s1 = s\<lparr>clock_reads := clock_reads s + 1\<rparr>"
  using assms by (auto simp add: buildTrashTarget_def Let_def dest: buildTrashTarget_loop_free)


lemma buildTrashTarget_total:
  assumes "finite (dom (fs s))"
  shows "\<exists>target. buildTrashTarget env trashDir absolutePath s =
                     Some (target, s\<lparr>clock_reads := clock_reads s + 1\<rparr>) \<and>
                   fs s target = None"
proof -
  from buildTrashTarget_loop_least [OF finite_occupiedNames [OF assms] basename_no_slash]
  obtain k where
    "buildTrashTarget_loop (fs s) trashDir (basename absolutePath) (date_now env (clock_reads s)) 0
       (join [trashDir, basename absolutePath]) =
     Some (trashCandidate trashDir (basename absolutePath) (date_now env (clock_reads s)) k)"
    and "fs s (trashCandidate trashDir (basename absolutePath) (date_now env (clock_reads s)) k) = None"
    by blast
  then show ?thesis
    by (simp add: buildTrashTarget_def Let_def)
qed

section \<open>One item, then the loop\<close>

lemma renameSync_cases:
  "renameSync env src dst s = (r, s') \<Longrightarrow>
   trace s' = trace s @ [EvRename src dst] \<and>
   clock_reads s' = clock_reads s \<and> cachedTrashCliCommand s' = cachedTrashCliCommand s \<and>
   (case r of
      Some e \<Rightarrow> fs s' = fs s \<and>
                (fs s src = None \<and> e = enoent (''rename '' @ quoted src @ '' -> '' @ quoted dst) \<or>
                 fs s src \<noteq> None \<and> rename_fault env (fs s) src dst = Some e)
    | None \<Rightarrow> fs s src \<noteq> None \<and> rename_fault env (fs s) src dst = None \<and>
              fs s' = (fs s)(src := None, dst := fs s src))"
  by (auto simp add: renameSync_def Let_def split: option.splits)

lemma cpSync_cases:
  "cpSync env src dst s = (r, s') \<Longrightarrow>
   trace s' = trace s @ [EvCopy src dst] \<and>
   clock_reads s' = clock_reads s \<and> cachedTrashCliCommand s' = cachedTrashCliCommand s \<and>
   (case r of
      Some e \<Rightarrow> fs s' = fs s
    | None \<Rightarrow> fs s src \<noteq> None \<and> fs s' = (fs s)(dst := fs s src))"
  by (auto simp add: cpSync_def Let_def split: option.splits)

lemma rmSync_cases:
  "rmSync env src s = (r, s') \<Longrightarrow>
   trace s' = trace s @ [EvRemove src] \<and>
   clock_reads s' = clock_reads s \<and> cachedTrashCliCommand s' = cachedTrashCliCommand s \<and>
   (case r of
      Some e \<Rightarrow> fs s' = fs s
    | None \<Rightarrow> fs s' = (fs s)(src := None))"
  by (auto simp add: rmSync_def Let_def split: option.splits)

lemma isCrossDeviceError_enoent [simp]: "\<not> isCrossDeviceError (enoent syscall)"
  by (simp add: enoent_def)

lemma moveItem_renamed:
  assumes "buildTrashTarget env trashDir (absolute item) s = Some (target, s0)"
    and "renameSync env (absolute item) target s0 = (None, s1)"
  shows "moveItem env trashDir item s = Some (None, s1)"
  using assms by (simp add: moveItem_def)

lemma moveItem_rename_failed:
  assumes "buildTrashTarget env trashDir (absolute item) s = Some (target, s0)"
    and "renameSync env (absolute item) target s0 = (Some error, s1)"
    and "\<not> isCrossDeviceError error"
  shows "moveItem env trashDir item s = Some (Some error, s1)"
  using assms by (simp add: moveItem_def)

lemma moveItem_cross_device:
  assumes "buildTrashTarget env trashDir (absolute item) s = Some (target, s0)"
    and "renameSync env (absolute item) target s0 = (Some error, s1)"
    and "isCrossDeviceError error"
  shows "moveItem env trashDir item s =
           (case cpSync env (absolute item) target s1 of
              (Some e, s2) \<Rightarrow> Some (Some e, s2)
            | (None, s2) \<Rightarrow> Some (rmSync env (absolute item) s2))"
  using assms by (simp add: moveItem_def)

lemma moveItem_effect:
  assumes "moveItem env trashDir item s = Some (r, s')"
  shows "\<exists>target more.
           buildTrashTarget env trashDir (absolute item) s =
             Some (target, s\<lparr>clock_reads := clock_reads s + 1\<rparr>) \<and>
           fs s target = None \<and>
           trace s' = trace s @ EvRename (absolute item) target # more \<and>
           renameSources more = [] \<and>
           (fs s' = fs s \<or>
            fs s (absolute item) \<noteq> None \<and>
              (fs s' = (fs s)(absolute item := None, target := fs s (absolute item)) \<or>
               fs s' = (fs s)(target := fs s (absolute item)))) \<and>
           (r = None \<longrightarrow> fs s (absolute item) \<noteq> None \<and>
              fs s' = (fs s)(absolute item := None, target := fs s (absolute item)))"
proof -
  from assms obtain target s0
    where bt: "buildTrashTarget env trashDir (absolute item) s = Some (target, s0)"
    by (auto simp add: moveItem_def split: option.splits)
  note free = buildTrashTarget_SomeD [OF bt]
  obtain r1 s1 where rn: "renameSync env (absolute item) target s0 = (r1, s1)"
    by (cases "renameSync env (absolute item) target s0")
  note rnc = renameSync_cases [OF rn]
  obtain r2 s2 where cp: "cpSync env (absolute item) target s1 = (r2, s2)"
    by (cases "cpSync env (absolute item) target s1")
  note cpc = cpSync_cases [OF cp]
  obtain r3 s3 where rm: "rmSync env (absolute item) s2 = (r3, s3)"
    by (cases "rmSync env (absolute item) s2")
  note rmc = rmSync_cases [OF rm]
  have neq: "fs s (absolute item) \<noteq> None \<Longrightarrow> absolute item \<noteq> target"
    using free(1) by auto
  show ?thesis
  proof (cases r1)
    case None
    with assms bt rn have "r = None" "s' = s1" by (simp_all add: moveItem_def)
    with None rnc free bt show ?thesis by auto
  next
    case (Some error)
    show ?thesis
    proof (cases "isCrossDeviceError error")
      case False
      with assms bt rn Some have "r = Some error" "s' = s1" by (simp_all add: moveItem_def)
      with Some rnc free bt show ?thesis by auto
    next
      case True
      with Some rnc free have src: "fs s (absolute item) \<noteq> None" by auto
      show ?thesis
      proof (cases r2)
        case (Some e)
        with assms bt rn \<open>r1 = Some error\<close> True cp have "r = Some e" "s' = s2"
          by (simp_all add: moveItem_def)
        with Some \<open>r1 = Some error\<close> rnc cpc free bt show ?thesis by auto
      next
        case None
        with assms bt rn \<open>r1 = Some error\<close> True cp rm have "r = r3" "s' = s3"
          by (simp_all add: moveItem_def)
        with None \<open>r1 = Some error\<close> rnc cpc rmc free bt src neq [OF src] show ?thesis
          by (cases r3) (auto simp add: fun_upd_twist)
      qed
    qed
  qed
qed

lemma moveItem_defined:
  assumes "buildTrashTarget env trashDir (absolute item) s = Some (target, s0)"
  shows "\<exists>r s'. moveItem env trashDir item s = Some (r, s')"
proof -
  obtain r1 s1 where rn: "renameSync env (absolute item) target s0 = (r1, s1)"
    by (cases "renameSync env (absolute item) target s0")
  obtain r2 s2 where cp: "cpSync env (absolute item) target s1 = (r2, s2)"
    by (cases "cpSync env (absolute item) target s1")
  obtain r3 s3 where rm: "rmSync env (absolute item) s2 = (r3, s3)"
    by (cases "rmSync env (absolute item) s2")
  show ?thesis
  proof (cases r1)
    case None
    with moveItem_renamed [OF assms] rn show ?thesis by simp
  next
    case (Some error)
    show ?thesis
    proof (cases "isCrossDeviceError error")
      case False
      with moveItem_rename_failed [OF assms] rn Some show ?thesis by simp
    next
      case True
      with moveItem_cross_device [OF assms] rn Some cp rm show ?thesis
        by (cases r2) simp_all
    qed
  qed
qed

lemma moveItem_total:
  assumes "finite (dom (fs s))"
  shows "\<exists>r s'. moveItem env trashDir item s = Some (r, s') \<and> finite (dom (fs s'))"
proof -
  from buildTrashTarget_total [OF assms] obtain target
    where bt: "buildTrashTarget env trashDir (absolute item) s =
                 Some (target, s\<lparr>clock_reads := clock_reads s + 1\<rparr>)"
    by blast
  from moveItem_defined [OF this] obtain r s' where mv: "moveItem env trashDir item s = Some (r, s')"
    by blast
  from moveItem_effect [OF mv] obtain target' where
    "fs s' = fs s \<or>
     fs s' = (fs s)(absolute item := None, target' := fs s (absolute item)) \<or>
     fs s' = (fs s)(target' := fs s (absolute item))"
    by blast
  with assms have "finite (dom (fs s'))"
    by (auto split: if_splits)
  with mv show ?thesis by blast
qed

lemma moveItem_keeps_others:
  assumes "moveItem env trashDir item s = Some (r, s')"
    and "fs s q \<noteq> None" and "q \<noteq> absolute item"
  shows "fs s' q = fs s q"
proof -
  from moveItem_effect [OF assms(1)] obtain target where
    "fs s target = None" and
    "fs s' = fs s \<or>
     fs s' = (fs s)(absolute item := None, target := fs s (absolute item)) \<or>
     fs s' = (fs s)(target := fs s (absolute item))"
    by blast
  with assms(2,3) show ?thesis by auto
qed

lemma renameSources_append [simp]: "renameSources (xs @ ys) = renameSources xs @ renameSources ys"
  by (induction xs rule: renameSources.induct) simp_all

lemma moveItems_acc:
  "moveItems env trashDir items acc s =
     map_option (\<lambda>(errs, s'). (acc @ errs, s')) (moveItems env trashDir items [] s)"
proof (induction items arbitrary: acc s)
  case Nil
  show ?case by simp
next
  case (Cons item rest)
  show ?case
  proof (cases "moveItem env trashDir item s")
    case None
    then show ?thesis by simp
  next
    case (Some outcome)
    obtain r s1 where "outcome = (r, s1)" by (cases outcome)
    with Some show ?thesis
      by (cases r)
         (simp_all add: Cons.IH [of acc] Cons.IH [of "acc @ _"] Cons.IH [of "[_]"]
                        option.map_comp comp_def split_def)
  qed
qed

lemma moveItems_append:
  "moveItems env trashDir (xs @ ys) [] s =
     (case moveItems env trashDir xs [] s of
        None \<Rightarrow> None
      | Some (errs1, s1) \<Rightarrow>
          map_option (\<lambda>(errs2, s2). (errs1 @ errs2, s2)) (moveItems env trashDir ys [] s1))"
proof (induction xs arbitrary: s)
  case Nil
  show ?case by (simp add: option.map_ident split_def)
next
  case (Cons item rest)
  show ?case
  proof (cases "moveItem env trashDir item s")
    case None
    then show ?thesis by simp
  next
    case (Some outcome)
    obtain r s1 where "outcome = (r, s1)" by (cases outcome)
    with Some show ?thesis
      by (cases r)
         (simp_all add: Cons.IH moveItems_acc [of _ _ _ "[_]"] option.map_comp comp_def split_def
                   split: option.splits)
  qed
qed

lemma moveItems_total:
  assumes "finite (dom (fs s))"
  shows "\<exists>errs s'. moveItems env trashDir items acc s = Some (errs, s') \<and> finite (dom (fs s'))"
  using assms
proof (induction items arbitrary: acc s)
  case Nil
  then show ?case by simp
next
  case (Cons item rest)
  from moveItem_total [OF Cons.prems] obtain r s1
    where mv: "moveItem env trashDir item s = Some (r, s1)" and fin: "finite (dom (fs s1))"
    by blast
  from Cons.IH [OF fin] mv show ?case
    by (cases r) simp_all
qed

lemma moveItems_attempts_all:
  "moveItems env trashDir items acc s = Some (errs, s') \<Longrightarrow>
   renameSources (trace s') = renameSources (trace s) @ map absolute items"
proof (induction items arbitrary: acc s)
  case Nil
  then show ?case by simp
next
  case (Cons item rest)
  from Cons.prems obtain r s1 where mv: "moveItem env trashDir item s = Some (r, s1)"
    by (auto split: option.splits)
  from moveItem_effect [OF mv] obtain target more
    where tr: "trace s1 = trace s @ EvRename (absolute item) target # more"
      and more: "renameSources more = []"
    by blast
  from Cons.prems mv obtain acc' where "moveItems env trashDir rest acc' s1 = Some (errs, s')"
    by (cases r) auto
  from Cons.IH [OF this] tr more show ?case by simp
qed

lemma moveItems_extends_trace:
  "moveItems env trashDir items acc s = Some (errs, s') \<Longrightarrow> \<exists>more. trace s' = trace s @ more"
proof (induction items arbitrary: acc s)
  case Nil
  then show ?case by simp
next
  case (Cons item rest)
  from Cons.prems obtain r s1 where mv: "moveItem env trashDir item s = Some (r, s1)"
    by (auto split: option.splits)
  from moveItem_effect [OF mv] obtain more1 where tr: "trace s1 = trace s @ more1"
    by auto
  from Cons.prems mv obtain acc' where "moveItems env trashDir rest acc' s1 = Some (errs, s')"
    by (cases r) auto
  from Cons.IH [OF this] tr show ?case by auto
qed

lemma moveItems_errors_named:
  "moveItems env trashDir items acc s = Some (errs, s') \<Longrightarrow>
   \<exists>more. errs = acc @ more \<and>
     (\<forall>e\<in>set more. \<exists>item\<in>set items. \<exists>reason.
        e = ''Failed to move '' @ raw item @ '' to Trash: '' @ reason)"
proof (induction items arbitrary: acc s)
  case Nil
  then show ?case by simp
next
  case (Cons item rest)
  from Cons.prems obtain r s1 where mv: "moveItem env trashDir item s = Some (r, s1)"
    by (auto split: option.splits)
  show ?case
  proof (cases r)
    case None
    with Cons.prems mv have "moveItems env trashDir rest acc s1 = Some (errs, s')"
      by simp
    from Cons.IH [OF this] show ?thesis by auto
  next
    case (Some error)
    let ?entry = "''Failed to move '' @ raw item @ '' to Trash: '' @ formatTrashError error"
    from Some Cons.prems mv have "moveItems env trashDir rest (acc @ [?entry]) s1 = Some (errs, s')"
      by simp
    from Cons.IH [OF this] obtain more where more: "errs = (acc @ [?entry]) @ more"
      and named: "\<forall>e\<in>set more. \<exists>item\<in>set rest. \<exists>reason.
                    e = ''Failed to move '' @ raw item @ '' to Trash: '' @ reason"
      by blast
    have "errs = acc @ (?entry # more)"
      using more by simp
    moreover have "\<forall>e\<in>set (?entry # more). \<exists>item\<in>set (item # rest). \<exists>reason.
                    e = ''Failed to move '' @ raw item @ '' to Trash: '' @ reason"
      using named by auto
    ultimately show ?thesis by blast
  qed
qed

lemma directFallback_extends_trace:
  "directFallback env existing m s = Some (r, s') \<Longrightarrow> \<exists>more. trace s' = trace s @ more"
  by (auto simp add: directFallback_def split: option.splits if_splits prod.splits
           dest: moveItems_extends_trace)

lemma directFallback_attempts_all:
  assumes "getTrashDirectory env s \<noteq> None" and "finite (dom (fs s))"
  shows "\<exists>r s'. directFallback env existing m s = Some (r, s') \<and> missing r = m \<and>
                renameSources (trace s') = renameSources (trace s) @ map absolute existing"
proof -
  from assms(1) obtain trashDir where td: "getTrashDirectory env s = Some trashDir"
    by auto
  note nonempty = getTrashDirectory_not_Nil [OF td]
  from moveItems_total [OF assms(2)] obtain errs s'
    where run: "moveItems env trashDir existing [] s = Some (errs, s')"
    by blast
  from td nonempty run
  have "directFallback env existing m s = Some (\<lparr>missing = m, errors = errs\<rparr>, s')"
    by (simp add: directFallback_def)
  with moveItems_attempts_all [OF run] show ?thesis by simp
qed

lemma directFallback_without_trash:
  "getTrashDirectory env s = None \<Longrightarrow>
   directFallback env existing m s =
     Some (\<lparr>missing = m, errors = [''Unable to locate macOS Trash directory (HOME/.Trash).'']\<rparr>, s)"
  by (simp add: directFallback_def)

lemma directFallback_with_trash:
  assumes "getTrashDirectory env s \<noteq> None" and "finite (dom (fs s))"
  shows "\<exists>errs s'. directFallback env existing m s = Some (\<lparr>missing = m, errors = errs\<rparr>, s') \<and>
           renameSources (trace s') = renameSources (trace s) @ map absolute existing \<and>
           (\<forall>e\<in>set errs. \<exists>item\<in>set existing. \<exists>reason.
              e = ''Failed to move '' @ raw item @ '' to Trash: '' @ reason)"
proof -
  from assms(1) obtain trashDir where td: "getTrashDirectory env s = Some trashDir"
    by auto
  note nonempty = getTrashDirectory_not_Nil [OF td]
  from moveItems_total [OF assms(2)] obtain errs s'
    where run: "moveItems env trashDir existing [] s = Some (errs, s')"
    by blast
  from td nonempty run
  have "directFallback env existing m s = Some (\<lparr>missing = m, errors = errs\<rparr>, s')"
    by (simp add: directFallback_def)
  with moveItems_attempts_all [OF run] moveItems_errors_named [OF run] show ?thesis
    by simp
qed

lemma runTrashCli_trace:
  "runTrashCli env command existing s = (outcome, s') \<Longrightarrow>
   trace s' = trace s @ [EvSpawn (command # map absolute existing)]"
  by (auto simp add: runTrashCli_def Let_def split: spawn_result.splits if_splits)

lemma moveExisting_with_helper:
  assumes "findTrashCliCommand env s = (Some command, s1)" and "command \<noteq> []"
    and "existing \<noteq> []"
    and "moveExisting env existing m s = Some (r, s')"
  shows "\<exists>more. trace s' = trace s1 @ EvSpawn (command # map absolute existing) # more"
proof -
  obtain outcome s2 where cli: "runTrashCli env command existing s1 = (outcome, s2)"
    by (cases "runTrashCli env command existing s1")
  note tr = runTrashCli_trace [OF cli]
  show ?thesis
  proof (cases outcome)
    case None
    with assms cli have "directFallback env existing m s2 = Some (r, s')"
      by (simp add: moveExisting_def)
    from directFallback_extends_trace [OF this] tr show ?thesis by auto
  next
    case (Some errs)
    with assms cli have "s' = s2"
      by (simp add: moveExisting_def)
    with tr show ?thesis by simp
  qed
qed

lemma moveExisting_without_helper:
  assumes "findTrashCliCommand env s = (None, s1)" and "getTrashDirectory env s1 \<noteq> None"
    and "finite (dom (fs s1))" and "existing \<noteq> []"
  shows "\<exists>r s'. moveExisting env existing m s = Some (r, s') \<and>
                renameSources (trace s') = renameSources (trace s1) @ map absolute existing"
proof -
  from assms(2) obtain trashDir where td: "getTrashDirectory env s1 = Some trashDir"
    by auto
  note nonempty = getTrashDirectory_not_Nil [OF td]
  from moveItems_total [OF assms(3)] obtain errs s'
    where run: "moveItems env trashDir existing [] s1 = Some (errs, s')"
    by blast
  from assms(1,4) td nonempty run
  have "moveExisting env existing m s = Some (\<lparr>missing = m, errors = errs\<rparr>, s')"
    by (simp add: moveExisting_def directFallback_def)
  with moveItems_attempts_all [OF run] show ?thesis by blast
qed

lemma probeCandidates_find:
  "probeCandidates env candidates s =
     (List.find (candidateQualifies env (fs s)) candidates,
      s\<lparr>trace := trace s @ map (\<lambda>c. EvSpawn [c, ''--help''])
                            (probedCandidates env (fs s) candidates),
        cachedTrashCliCommand := Some (List.find (candidateQualifies env (fs s)) candidates)\<rparr>)"
proof (induction candidates arbitrary: s)
  case Nil
  show ?case by (simp add: probedCandidates_def)
next
  case (Cons candidate rest)
  show ?case
  proof (cases "spawn env [candidate, ''--help''] (fs s)")
    case (SpawnThrew e)
    then show ?thesis
      by (simp add: Cons.IH candidateQualifies_def probedCandidates_def)
  next
    case (Exited exitCode strm files)
    then show ?thesis
      by (simp add: Cons.IH candidateQualifies_def probedCandidates_def)
  qed
qed

section \<open>The claims\<close>

subsection \<open>The protection guard\<close>

text \<open>
  Claim C1 says that a batch in which some path's canonical absolute form equals a protected
  path (the root, the normalized base directory, or a \<^verbatim>\<open>refusePaths\<close> entry resolved
  against the base directory) is refused: \<^verbatim>\<open>missing\<close> empty, one \<^verbatim>\<open>errors\<close> entry naming the
  raw path, nothing moved. The guard of lines 34-37 is written to do that, and misses a
  case: the refused set is computed with \<^verbatim>\<open>resolve\<close>, which drops a trailing slash, while
  \<^verbatim>\<open>resolvePath\<close> returns an absolute input as it was written and \<^verbatim>\<open>normalize\<close> keeps
  its trailing slash. Here the batch is \<^verbatim>\<open>["/work/"]\<close> with base directory \<^verbatim>\<open>/work\<close>: the
  input resolves to \<^verbatim>\<open>/work\<close>, a member of the refused set, but the form the loop
  compares is \<^verbatim>\<open>/work/\<close>, which is not a member; the path is not refused, the base
  directory is renamed into the trash directory, and \<^verbatim>\<open>errors\<close> is empty. The same
  comparison lets \<^verbatim>\<open>/work//\<close> and the protected \<^verbatim>\<open>/work/secrets/\<close> through, and
  \<^verbatim>\<open>/work/\<close> when the base directory itself is given as \<^verbatim>\<open>/work/\<close>.
\<close>

theorem trailing_slash_evades_guard:
  "normalize_path (resolve (cwd demo_env) [''/work/'']) = ''/work'' \<and>
   ''/work'' \<in> set (refuseCanonicals demo_env ''/work'' demo_options) \<and>
   normalize_path (resolvePath demo_env ''/work'' ''/work/'') = ''/work/'' \<and>
   \<not> isProtected demo_env ''/work'' demo_options ''/work/'' \<and>
   \<not> isProtected demo_env ''/work'' demo_options ''/work//'' \<and>
   \<not> isProtected demo_env ''/work'' demo_options ''/work/secrets/'' \<and>
   \<not> isProtected demo_env ''/work/'' demo_options ''/work/'' \<and>
   observe [''/work/'', ''/home/u/.Trash/work'']
     (movePathsToTrash demo_env [''/work/''] ''/work'' demo_options base_dir_state) =
   Some (\<lparr>missing = [], errors = []\<rparr>,
         [EvRename ''/work/'' ''/home/u/.Trash/work''],
         [None, Some ''<dir>''])"
  by (simp add: movePathsToTrash_def isProtected_def world_eval observe_def path_eval demo_defs
        base_dir_state_def)

text \<open>
  Claim C3. The classification loop returns its refusal exactly when some input's canonical
  absolute form is equal, as a string, to a member of the refused set. When no input is
  equal to a member, wherever the canonical forms lie (in particular underneath a protected
  directory), no path is refused and the batch proceeds: the outcome is that of moving the
  existing inputs.
\<close>

theorem refusal_is_exact_match:
  "((\<exists>refusal. classifyPaths env s baseDir opts paths [] [] = Inl refusal) \<longleftrightarrow>
      (\<exists>p\<in>set paths. \<exists>c\<in>set (refuseCanonicals env baseDir opts).
         normalize_path (resolvePath env baseDir p) = c))
   \<and>
   ((\<forall>p\<in>set paths. \<forall>c\<in>set (refuseCanonicals env baseDir opts).
       normalize_path (resolvePath env baseDir p) \<noteq> c)
    \<longrightarrow> movePathsToTrash env paths baseDir opts s =
          moveExisting env (toMove env s baseDir paths)
            (if allowMissing opts then [] else nonexistentPaths env s baseDir paths) s)"
proof (intro conjI impI)
  show "(\<exists>refusal. classifyPaths env s baseDir opts paths [] [] = Inl refusal) \<longleftrightarrow>
      (\<exists>p\<in>set paths. \<exists>c\<in>set (refuseCanonicals env baseDir opts).
         normalize_path (resolvePath env baseDir p) = c)"
    by (simp add: classifyPaths_Inl_iff isProtected_def)
next
  assume "\<forall>p\<in>set paths. \<forall>c\<in>set (refuseCanonicals env baseDir opts).
       normalize_path (resolvePath env baseDir p) \<noteq> c"
  then have "\<forall>p\<in>set paths. \<not> isProtected env baseDir opts p"
    by (auto simp add: isProtected_def)
  then show "movePathsToTrash env paths baseDir opts s =
          moveExisting env (toMove env s baseDir paths)
            (if allowMissing opts then [] else nonexistentPaths env s baseDir paths) s"
    by (rule movePathsToTrash_proceeds)
qed

text \<open>
  The scenario of the specification: \<^verbatim>\<open>refusePaths: ["secrets"]\<close> protects
  \<^verbatim>\<open>/work/secrets\<close>; the input \<^verbatim>\<open>secrets/key.pem\<close> resolves underneath it, is not
  refused, and is moved to the trash.
\<close>

theorem refusal_is_exact_match_witness:
  "''/work/secrets'' \<in> set (refuseCanonicals demo_env ''/work'' demo_options) \<and>
   normalize_path (resolvePath demo_env ''/work'' ''secrets/key.pem'') = ''/work/secrets/key.pem'' \<and>
   observe [''/work/secrets/key.pem'', ''/home/u/.Trash/key.pem'']
     (movePathsToTrash demo_env [''secrets/key.pem''] ''/work'' demo_options
        (secrets_state\<lparr>cachedTrashCliCommand := Some None\<rparr>)) =
   Some (\<lparr>missing = [], errors = []\<rparr>,
         [EvRename ''/work/secrets/key.pem'' ''/home/u/.Trash/key.pem''],
         [None, Some ''key''])"
proof -
  have "\<forall>p\<in>set [''secrets/key.pem'']. \<forall>c\<in>set (refuseCanonicals demo_env ''/work'' demo_options).
          normalize_path (resolvePath demo_env ''/work'' p) \<noteq> c"
    by (simp add: path_eval demo_defs secrets_state_def)
  with refusal_is_exact_match
         [of demo_env "secrets_state\<lparr>cachedTrashCliCommand := Some None\<rparr>" "''/work''" demo_options
             "[''secrets/key.pem'']"]
  have "movePathsToTrash demo_env [''secrets/key.pem''] ''/work'' demo_options
          (secrets_state\<lparr>cachedTrashCliCommand := Some None\<rparr>) =
        moveExisting demo_env
          (toMove demo_env (secrets_state\<lparr>cachedTrashCliCommand := Some None\<rparr>) ''/work''
             [''secrets/key.pem''])
          (if allowMissing demo_options then []
           else nonexistentPaths demo_env (secrets_state\<lparr>cachedTrashCliCommand := Some None\<rparr>)
                  ''/work'' [''secrets/key.pem''])
          (secrets_state\<lparr>cachedTrashCliCommand := Some None\<rparr>)"
    by blast
  then show ?thesis
    by (simp add: world_eval observe_def toMove_def existingPaths_def nonexistentPaths_def path_eval demo_defs secrets_state_def)
qed

subsection \<open>Missing paths\<close>

text \<open>
  Claim C4. For a batch without protected paths, the classification loop ends with
  \<^verbatim>\<open>missing\<close> holding the raw strings of the nonexistent inputs, in order, when
  \<^verbatim>\<open>allowMissing\<close> is false, and empty when it is true (so a nonexistent input is in
  \<^verbatim>\<open>missing\<close> exactly when \<^verbatim>\<open>allowMissing\<close> is false), and with \<^verbatim>\<open>existing\<close> holding the
  existing inputs, which does not depend on \<^verbatim>\<open>allowMissing\<close>. Every way out of the function
  returns that \<^verbatim>\<open>missing\<close>, and the existing inputs are attempted all the same: with
  nothing to move the result is returned at once with no errors; a helper that was found
  is spawned with the absolute paths of all existing inputs, and its throwing, its exit with
  status 0 or its exit with standard-error text is the result; otherwise the direct fallback
  runs, which returns the one entry for a trash directory that cannot be located, or, with
  finitely many paths occupied, returns after one rename attempt per existing input, with
  \<^verbatim>\<open>errors\<close> entries that each name an existing input: a nonexistent input accounts for no
  entry of \<^verbatim>\<open>errors\<close>.
\<close>

theorem missing_paths_reported:
  assumes "\<forall>p\<in>set paths. \<not> isProtected env baseDir opts p"
  shows
  "classifyPaths env s baseDir opts paths [] [] =
     Inr (if allowMissing opts then [] else nonexistentPaths env s baseDir paths,
          toMove env s baseDir paths)
   \<and>
   (\<forall>p\<in>set paths. \<not> existsSync s (resolvePath env baseDir p) \<longrightarrow>
      (p \<in> set (if allowMissing opts then [] else nonexistentPaths env s baseDir paths)
         \<longleftrightarrow> \<not> allowMissing opts))
   \<and>
   (toMove env s baseDir paths = [] \<longrightarrow>
      movePathsToTrash env paths baseDir opts s =
        Some (\<lparr>missing = (if allowMissing opts then [] else nonexistentPaths env s baseDir paths),
               errors = []\<rparr>, s))
   \<and>
   (toMove env s baseDir paths \<noteq> [] \<and>
    findTrashCliCommand env s = (Some command, s1) \<and> command \<noteq> [] \<and>
    spawn env (command # map absolute (toMove env s baseDir paths)) (fs s1) = SpawnThrew error \<longrightarrow>
      movePathsToTrash env paths baseDir opts s =
        Some (\<lparr>missing = (if allowMissing opts then [] else nonexistentPaths env s baseDir paths),
               errors = [formatTrashError error]\<rparr>,
              s1\<lparr>trace := trace s1 @
                           [EvSpawn (command # map absolute (toMove env s baseDir paths))]\<rparr>))
   \<and>
   (toMove env s baseDir paths \<noteq> [] \<and>
    findTrashCliCommand env s = (Some command, s1) \<and> command \<noteq> [] \<and>
    spawn env (command # map absolute (toMove env s baseDir paths)) (fs s1) =
      Exited exitCode strm files \<and>
    (exitCode = 0 \<or> trim (readProcessStream strm) \<noteq> []) \<longrightarrow>
      movePathsToTrash env paths baseDir opts s =
        Some (\<lparr>missing = (if allowMissing opts then [] else nonexistentPaths env s baseDir paths),
               errors = (if exitCode = 0 then [] else [trim (readProcessStream strm)])\<rparr>,
              s1\<lparr>trace := trace s1 @
                           [EvSpawn (command # map absolute (toMove env s baseDir paths))],
                 fs := files\<rparr>))
   \<and>
   (toMove env s baseDir paths \<noteq> [] \<and>
    findTrashCliCommand env s = (Some command, s1) \<and> command \<noteq> [] \<and>
    spawn env (command # map absolute (toMove env s baseDir paths)) (fs s1) =
      Exited exitCode strm files \<and>
    exitCode \<noteq> 0 \<and> trim (readProcessStream strm) = [] \<longrightarrow>
      movePathsToTrash env paths baseDir opts s =
        directFallback env (toMove env s baseDir paths)
          (if allowMissing opts then [] else nonexistentPaths env s baseDir paths)
          (s1\<lparr>trace := trace s1 @
                        [EvSpawn (command # map absolute (toMove env s baseDir paths))],
              fs := files\<rparr>))
   \<and>
   (toMove env s baseDir paths \<noteq> [] \<and>
    findTrashCliCommand env s = (found, s1) \<and> (found = None \<or> found = Some []) \<longrightarrow>
      movePathsToTrash env paths baseDir opts s =
        directFallback env (toMove env s baseDir paths)
          (if allowMissing opts then [] else nonexistentPaths env s baseDir paths) s1)
   \<and>
   (getTrashDirectory env sf = None \<longrightarrow>
      directFallback env (toMove env s baseDir paths)
        (if allowMissing opts then [] else nonexistentPaths env s baseDir paths) sf =
      Some (\<lparr>missing = (if allowMissing opts then [] else nonexistentPaths env s baseDir paths),
             errors = [''Unable to locate macOS Trash directory (HOME/.Trash).'']\<rparr>, sf))
   \<and>
   (getTrashDirectory env sf \<noteq> None \<and> finite (dom (fs sf)) \<longrightarrow>
      (\<exists>errs s'.
         directFallback env (toMove env s baseDir paths)
           (if allowMissing opts then [] else nonexistentPaths env s baseDir paths) sf =
         Some (\<lparr>missing = (if allowMissing opts then [] else nonexistentPaths env s baseDir paths),
                errors = errs\<rparr>, s') \<and>
         renameSources (trace s') =
           renameSources (trace sf) @ map absolute (toMove env s baseDir paths) \<and>
         (\<forall>e\<in>set errs. \<exists>item\<in>set (toMove env s baseDir paths). \<exists>reason.
            e = ''Failed to move '' @ raw item @ '' to Trash: '' @ reason)))"
proof -
  let ?E = "toMove env s baseDir paths"
  let ?M = "if allowMissing opts then [] else nonexistentPaths env s baseDir paths"
  let ?argv = "command # map absolute ?E"
  have classified: "classifyPaths env s baseDir opts paths [] [] = Inr (?M, ?E)"
    using classifyPaths_accepted [OF assms, of s "[]" "[]"] by simp
  have proceeds: "movePathsToTrash env paths baseDir opts s = moveExisting env ?E ?M s"
    by (rule movePathsToTrash_proceeds [OF assms])
  have listed: "\<forall>p\<in>set paths. \<not> existsSync s (resolvePath env baseDir p) \<longrightarrow>
                  (p \<in> set ?M \<longleftrightarrow> \<not> allowMissing opts)"
    by (simp add: nonexistentPaths_def)
  have no_items: "?E = [] \<longrightarrow>
      moveExisting env ?E ?M s = Some (\<lparr>missing = ?M, errors = []\<rparr>, s)"
  proof
    assume "?E = []"
    then show "moveExisting env ?E ?M s = Some (\<lparr>missing = ?M, errors = []\<rparr>, s)"
      by (simp add: moveExisting_def)
  qed
  have threw: "?E \<noteq> [] \<and> findTrashCliCommand env s = (Some command, s1) \<and> command \<noteq> [] \<and>
        spawn env ?argv (fs s1) = SpawnThrew error \<longrightarrow>
      moveExisting env ?E ?M s =
        Some (\<lparr>missing = ?M, errors = [formatTrashError error]\<rparr>,
              s1\<lparr>trace := trace s1 @ [EvSpawn ?argv]\<rparr>)"
  proof
    assume "?E \<noteq> [] \<and> findTrashCliCommand env s = (Some command, s1) \<and> command \<noteq> [] \<and>
        spawn env ?argv (fs s1) = SpawnThrew error"
    then show "moveExisting env ?E ?M s =
        Some (\<lparr>missing = ?M, errors = [formatTrashError error]\<rparr>,
              s1\<lparr>trace := trace s1 @ [EvSpawn ?argv]\<rparr>)"
      by (simp add: moveExisting_def runTrashCli_def Let_def)
  qed
  have returned: "?E \<noteq> [] \<and> findTrashCliCommand env s = (Some command, s1) \<and> command \<noteq> [] \<and>
        spawn env ?argv (fs s1) = Exited exitCode strm files \<and>
        (exitCode = 0 \<or> trim (readProcessStream strm) \<noteq> []) \<longrightarrow>
      moveExisting env ?E ?M s =
        Some (\<lparr>missing = ?M,
               errors = (if exitCode = 0 then [] else [trim (readProcessStream strm)])\<rparr>,
              s1\<lparr>trace := trace s1 @ [EvSpawn ?argv], fs := files\<rparr>)"
  proof
    assume "?E \<noteq> [] \<and> findTrashCliCommand env s = (Some command, s1) \<and> command \<noteq> [] \<and>
        spawn env ?argv (fs s1) = Exited exitCode strm files \<and>
        (exitCode = 0 \<or> trim (readProcessStream strm) \<noteq> [])"
    then show "moveExisting env ?E ?M s =
        Some (\<lparr>missing = ?M,
               errors = (if exitCode = 0 then [] else [trim (readProcessStream strm)])\<rparr>,
              s1\<lparr>trace := trace s1 @ [EvSpawn ?argv], fs := files\<rparr>)"
      by (auto simp add: moveExisting_def runTrashCli_def Let_def)
  qed
  have silent: "?E \<noteq> [] \<and> findTrashCliCommand env s = (Some command, s1) \<and> command \<noteq> [] \<and>
        spawn env ?argv (fs s1) = Exited exitCode strm files \<and>
        exitCode \<noteq> 0 \<and> trim (readProcessStream strm) = [] \<longrightarrow>
      moveExisting env ?E ?M s =
        directFallback env ?E ?M (s1\<lparr>trace := trace s1 @ [EvSpawn ?argv], fs := files\<rparr>)"
  proof
    assume "?E \<noteq> [] \<and> findTrashCliCommand env s = (Some command, s1) \<and> command \<noteq> [] \<and>
        spawn env ?argv (fs s1) = Exited exitCode strm files \<and>
        exitCode \<noteq> 0 \<and> trim (readProcessStream strm) = []"
    then show "moveExisting env ?E ?M s =
        directFallback env ?E ?M (s1\<lparr>trace := trace s1 @ [EvSpawn ?argv], fs := files\<rparr>)"
      by (simp add: moveExisting_def runTrashCli_def Let_def)
  qed
  have none: "?E \<noteq> [] \<and> findTrashCliCommand env s = (found, s1) \<and> (found = None \<or> found = Some []) \<longrightarrow>
      moveExisting env ?E ?M s = directFallback env ?E ?M s1"
  proof
    assume "?E \<noteq> [] \<and> findTrashCliCommand env s = (found, s1) \<and> (found = None \<or> found = Some [])"
    then show "moveExisting env ?E ?M s = directFallback env ?E ?M s1"
      by (auto simp add: moveExisting_def)
  qed
  have no_trash: "getTrashDirectory env sf = None \<longrightarrow>
      directFallback env ?E ?M sf =
      Some (\<lparr>missing = ?M,
             errors = [''Unable to locate macOS Trash directory (HOME/.Trash).'']\<rparr>, sf)"
  proof
    assume "getTrashDirectory env sf = None"
    then show "directFallback env ?E ?M sf =
      Some (\<lparr>missing = ?M,
             errors = [''Unable to locate macOS Trash directory (HOME/.Trash).'']\<rparr>, sf)"
      by (rule directFallback_without_trash)
  qed
  have loop: "getTrashDirectory env sf \<noteq> None \<and> finite (dom (fs sf)) \<longrightarrow>
      (\<exists>errs s'. directFallback env ?E ?M sf = Some (\<lparr>missing = ?M, errors = errs\<rparr>, s') \<and>
         renameSources (trace s') = renameSources (trace sf) @ map absolute ?E \<and>
         (\<forall>e\<in>set errs. \<exists>item\<in>set ?E. \<exists>reason.
            e = ''Failed to move '' @ raw item @ '' to Trash: '' @ reason))"
  proof
    assume "getTrashDirectory env sf \<noteq> None \<and> finite (dom (fs sf))"
    then show "\<exists>errs s'. directFallback env ?E ?M sf = Some (\<lparr>missing = ?M, errors = errs\<rparr>, s') \<and>
         renameSources (trace s') = renameSources (trace sf) @ map absolute ?E \<and>
         (\<forall>e\<in>set errs. \<exists>item\<in>set ?E. \<exists>reason.
            e = ''Failed to move '' @ raw item @ '' to Trash: '' @ reason)"
      by (intro directFallback_with_trash) simp_all
  qed
  show ?thesis
    unfolding proceeds
    by (intro conjI classified listed no_items threw returned silent none no_trash loop)
qed

text \<open>
  The scenario of the specification, \<^verbatim>\<open>["a.txt", "missing.txt"]\<close> under \<^verbatim>\<open>/work\<close>:
  with no helper, once with \<^verbatim>\<open>allowMissing\<close> false and once with it true, the existing
  file being the one source of a rename; with a helper that exits with status 0; with one
  that exits with status 1 and says nothing, after which the fallback moves the file; with
  one that cannot be spawned; with no trash directory; and the batch \<^verbatim>\<open>["missing.txt"]\<close>
  alone, for which nothing is probed or moved.
\<close>

theorem missing_paths_reported_witness:
  "observe [''/work/a.txt'', ''/home/u/.Trash/a.txt'']
     (movePathsToTrash demo_env [''a.txt'', ''missing.txt''] ''/work'' demo_options
        (demo_state\<lparr>cachedTrashCliCommand := Some None\<rparr>)) =
   Some (\<lparr>missing = [''missing.txt''], errors = []\<rparr>,
         [EvRename ''/work/a.txt'' ''/home/u/.Trash/a.txt''],
         [None, Some ''alpha''])
   \<and>
   observe [''/work/a.txt'', ''/home/u/.Trash/a.txt'']
     (movePathsToTrash demo_env [''a.txt'', ''missing.txt''] ''/work''
        (demo_options\<lparr>allowMissing := True\<rparr>)
        (demo_state\<lparr>cachedTrashCliCommand := Some None\<rparr>)) =
   Some (\<lparr>missing = [], errors = []\<rparr>,
         [EvRename ''/work/a.txt'' ''/home/u/.Trash/a.txt''],
         [None, Some ''alpha''])
   \<and>
   map_option (\<lambda>(r, s'). (missing r, renameSources (trace s')))
     (movePathsToTrash demo_env [''a.txt'', ''missing.txt''] ''/work'' demo_options
        (demo_state\<lparr>cachedTrashCliCommand := Some None\<rparr>)) =
   Some ([''missing.txt''], [''/work/a.txt''])
   \<and>
   observe [''/work/a.txt'', ''/home/u/.Trash/a.txt'']
     (movePathsToTrash (helper_env 0 []) [''a.txt'', ''missing.txt''] ''/work'' demo_options
        (demo_state\<lparr>cachedTrashCliCommand := Some (Some ''trash'')\<rparr>)) =
   Some (\<lparr>missing = [''missing.txt''], errors = []\<rparr>,
         [EvSpawn [''trash'', ''/work/a.txt'']],
         [Some ''alpha'', None])
   \<and>
   observe [''/work/a.txt'', ''/home/u/.Trash/a.txt'']
     (movePathsToTrash (helper_env 1 []) [''a.txt'', ''missing.txt''] ''/work'' demo_options
        (demo_state\<lparr>cachedTrashCliCommand := Some (Some ''trash'')\<rparr>)) =
   Some (\<lparr>missing = [''missing.txt''], errors = []\<rparr>,
         [EvSpawn [''trash'', ''/work/a.txt''], EvRename ''/work/a.txt'' ''/home/u/.Trash/a.txt''],
         [None, Some ''alpha''])
   \<and>
   observe [''/work/a.txt'', ''/home/u/.Trash/a.txt'']
     (movePathsToTrash demo_env [''a.txt'', ''missing.txt''] ''/work'' demo_options
        (demo_state\<lparr>cachedTrashCliCommand := Some (Some ''trash'')\<rparr>)) =
   Some (\<lparr>missing = [''missing.txt''], errors = [''Executable not found in $PATH'']\<rparr>,
         [EvSpawn [''trash'', ''/work/a.txt'']],
         [Some ''alpha'', None])
   \<and>
   observe [''/work/a.txt'', ''/home/u/.Trash/a.txt'']
     (movePathsToTrash demo_env [''a.txt'', ''missing.txt''] ''/work'' demo_options
        (demo_state\<lparr>fs := (fs demo_state)(''/home/u/.Trash'' := None),
                    cachedTrashCliCommand := Some None\<rparr>)) =
   Some (\<lparr>missing = [''missing.txt''],
          errors = [''Unable to locate macOS Trash directory (HOME/.Trash).'']\<rparr>,
         [],
         [Some ''alpha'', None])
   \<and>
   movePathsToTrash demo_env [''missing.txt''] ''/work'' demo_options demo_state =
     Some (\<lparr>missing = [''missing.txt''], errors = []\<rparr>, demo_state)"
proof -
  let ?s = "demo_state\<lparr>cachedTrashCliCommand := Some None\<rparr>"
  let ?sh = "demo_state\<lparr>cachedTrashCliCommand := Some (Some ''trash'')\<rparr>"
  let ?sn = "demo_state\<lparr>fs := (fs demo_state)(''/home/u/.Trash'' := None),
                        cachedTrashCliCommand := Some None\<rparr>"
  let ?paths = "[''a.txt'', ''missing.txt'']"
  let ?stream = "Stream (Some (Inr (Some []))) None"
  have free: "\<forall>p\<in>set ?paths. \<not> isProtected env ''/work'' opts p"
    if "cwd env = ''/''" and "refusePaths opts = Some [''secrets'']" for env opts
    using that by (simp add: isProtected_def path_eval)
  have free_demo: "\<forall>p\<in>set ?paths. \<not> isProtected demo_env ''/work'' opts p"
    if "refusePaths opts = Some [''secrets'']" for opts
    using that by (intro free) (simp_all add: demo_defs)
  have free_helper: "\<forall>p\<in>set ?paths. \<not> isProtected (helper_env exitCode []) ''/work'' demo_options p"
    for exitCode
    by (intro free) (simp_all add: demo_defs helper_env_def)
  have free_one: "\<forall>p\<in>set [''missing.txt'']. \<not> isProtected demo_env ''/work'' demo_options p"
    by (simp add: isProtected_def path_eval demo_defs)
  have demo_rp: "\<forall>p\<in>set ?paths. \<not> isProtected demo_env ''/work'' demo_options p"
    by (intro free_demo) (simp add: demo_options_def)
  have fallback: "observe [''/work/a.txt'', ''/home/u/.Trash/a.txt'']
               (movePathsToTrash demo_env ?paths ''/work'' opts ?s) =
             Some (\<lparr>missing = (if allowMissing opts then [] else [''missing.txt'']), errors = []\<rparr>,
                   [EvRename ''/work/a.txt'' ''/home/u/.Trash/a.txt''],
                   [None, Some ''alpha''])"
    if rp: "refusePaths opts = Some [''secrets'']" for opts
    using missing_paths_reported [OF free_demo [OF rp], where s = ?s and found = None and ?s1.0 = ?s,
            THEN conjunct2, THEN conjunct2, THEN conjunct2, THEN conjunct2, THEN conjunct2,
            THEN conjunct2, THEN conjunct1]
    by (simp add: world_eval observe_def toMove_def existingPaths_def nonexistentPaths_def
          path_eval demo_defs)
  have attempted: "map_option (\<lambda>(r, s'). (missing r, renameSources (trace s')))
     (movePathsToTrash demo_env ?paths ''/work'' demo_options ?s) =
   Some ([''missing.txt''], [''/work/a.txt''])"
  proof -
    note inst = missing_paths_reported [OF demo_rp, where s = ?s and found = None and ?s1.0 = ?s
                  and sf = ?s]
    have entered: "movePathsToTrash demo_env ?paths ''/work'' demo_options ?s =
        directFallback demo_env (toMove demo_env ?s ''/work'' ?paths)
          (if allowMissing demo_options then [] else nonexistentPaths demo_env ?s ''/work'' ?paths) ?s"
      using inst [THEN conjunct2, THEN conjunct2, THEN conjunct2, THEN conjunct2, THEN conjunct2,
                  THEN conjunct2, THEN conjunct1]
      by (simp add: world_eval toMove_def existingPaths_def path_eval demo_defs)
    have "getTrashDirectory demo_env ?s \<noteq> None \<and> finite (dom (fs ?s))"
      by (simp add: world_eval path_eval demo_defs)
    with inst [THEN conjunct2, THEN conjunct2, THEN conjunct2, THEN conjunct2, THEN conjunct2,
               THEN conjunct2, THEN conjunct2, THEN conjunct2]
    obtain errs s' where
      "directFallback demo_env (toMove demo_env ?s ''/work'' ?paths)
          (if allowMissing demo_options then [] else nonexistentPaths demo_env ?s ''/work'' ?paths) ?s =
       Some (\<lparr>missing = (if allowMissing demo_options then []
                          else nonexistentPaths demo_env ?s ''/work'' ?paths), errors = errs\<rparr>, s')"
      and "renameSources (trace s') =
             renameSources (trace ?s) @ map absolute (toMove demo_env ?s ''/work'' ?paths)"
      by blast
    with entered show ?thesis
      by (simp add: existsSync_def toMove_def existingPaths_def
            nonexistentPaths_def path_eval demo_defs)
  qed
  have helper: "observe [''/work/a.txt'', ''/home/u/.Trash/a.txt'']
     (movePathsToTrash (helper_env 0 []) ?paths ''/work'' demo_options ?sh) =
   Some (\<lparr>missing = [''missing.txt''], errors = []\<rparr>,
         [EvSpawn [''trash'', ''/work/a.txt'']],
         [Some ''alpha'', None])"
    using missing_paths_reported [OF free_helper, where s = ?sh and command = "''trash''"
            and ?s1.0 = ?sh and exitCode = 0 and strm = ?stream and files = "fs demo_state",
            THEN conjunct2, THEN conjunct2, THEN conjunct2, THEN conjunct2, THEN conjunct1]
    by (simp add: world_eval observe_def toMove_def existingPaths_def nonexistentPaths_def
          path_eval demo_defs helper_env_def)
  have silent: "observe [''/work/a.txt'', ''/home/u/.Trash/a.txt'']
     (movePathsToTrash (helper_env 1 []) ?paths ''/work'' demo_options ?sh) =
   Some (\<lparr>missing = [''missing.txt''], errors = []\<rparr>,
         [EvSpawn [''trash'', ''/work/a.txt''], EvRename ''/work/a.txt'' ''/home/u/.Trash/a.txt''],
         [None, Some ''alpha''])"
    using missing_paths_reported [OF free_helper, where s = ?sh and command = "''trash''"
            and ?s1.0 = ?sh and exitCode = 1 and strm = ?stream and files = "fs demo_state",
            THEN conjunct2, THEN conjunct2, THEN conjunct2, THEN conjunct2, THEN conjunct2,
            THEN conjunct1]
    by (simp add: world_eval observe_def toMove_def existingPaths_def nonexistentPaths_def
          path_eval demo_defs helper_env_def)
  have threw: "observe [''/work/a.txt'', ''/home/u/.Trash/a.txt'']
     (movePathsToTrash demo_env ?paths ''/work'' demo_options ?sh) =
   Some (\<lparr>missing = [''missing.txt''], errors = [''Executable not found in $PATH'']\<rparr>,
         [EvSpawn [''trash'', ''/work/a.txt'']],
         [Some ''alpha'', None])"
    using missing_paths_reported [OF demo_rp, where s = ?sh and command = "''trash''"
            and ?s1.0 = ?sh
            and error = "JsError (Some ''ENOENT'') ''Executable not found in $PATH''",
            THEN conjunct2, THEN conjunct2, THEN conjunct2, THEN conjunct1]
    by (simp add: world_eval observe_def toMove_def existingPaths_def nonexistentPaths_def
          path_eval demo_defs)
  have no_trash: "observe [''/work/a.txt'', ''/home/u/.Trash/a.txt'']
     (movePathsToTrash demo_env ?paths ''/work'' demo_options ?sn) =
   Some (\<lparr>missing = [''missing.txt''],
          errors = [''Unable to locate macOS Trash directory (HOME/.Trash).'']\<rparr>,
         [],
         [Some ''alpha'', None])"
  proof -
    note inst = missing_paths_reported [OF demo_rp, where s = ?sn and found = None and ?s1.0 = ?sn
                  and sf = ?sn]
    have "getTrashDirectory demo_env ?sn = None"
      by (simp add: world_eval path_eval demo_defs)
    with inst [THEN conjunct2, THEN conjunct2, THEN conjunct2, THEN conjunct2, THEN conjunct2,
               THEN conjunct2, THEN conjunct1]
         inst [THEN conjunct2, THEN conjunct2, THEN conjunct2, THEN conjunct2, THEN conjunct2,
               THEN conjunct2, THEN conjunct2, THEN conjunct1]
    show ?thesis
      by (simp add: findTrashCliCommand_def existsSync_def observe_def toMove_def existingPaths_def
            nonexistentPaths_def path_eval demo_defs)
  qed
  have only_missing: "movePathsToTrash demo_env [''missing.txt''] ''/work'' demo_options demo_state =
     Some (\<lparr>missing = [''missing.txt''], errors = []\<rparr>, demo_state)"
    using missing_paths_reported [OF free_one, where s = demo_state,
            THEN conjunct2, THEN conjunct2, THEN conjunct1]
    by (simp add: existsSync_def toMove_def existingPaths_def nonexistentPaths_def
          path_eval demo_defs)
  from fallback [of demo_options] fallback [of "demo_options\<lparr>allowMissing := True\<rparr>"]
       attempted helper silent threw no_trash only_missing
  show ?thesis
    by (simp add: demo_options_def)
qed

subsection \<open>The helper\<close>

text \<open>
  Claim C8. \<^verbatim>\<open>findTrashCliCommand\<close> is a total function: a spawn that throws is a branch
  that the loop passes over. With a cached value it returns that value and leaves the state
  as it is, so nothing is probed. From the cold state it returns the first candidate that
  qualifies, or \<^verbatim>\<open>null\<close> if none does, having spawned the candidates up to that one, and
  caches the result, so that the next call returns the same value and leaves the state as
  it is. A candidate qualifies exactly when its help invocation exits with status 0 or 1.
\<close>

theorem helper_probe_is_cached:
  "(cachedTrashCliCommand s = Some cached \<longrightarrow> findTrashCliCommand env s = (cached, s))
   \<and>
   (cachedTrashCliCommand s = None \<longrightarrow>
      (\<exists>s'. findTrashCliCommand env s =
               (List.find (candidateQualifies env (fs s)) (candidatePaths env), s') \<and>
            cachedTrashCliCommand s' =
               Some (List.find (candidateQualifies env (fs s)) (candidatePaths env)) \<and>
            fs s' = fs s \<and>
            trace s' = trace s @ map (\<lambda>c. EvSpawn [c, ''--help''])
                                   (probedCandidates env (fs s) (candidatePaths env)) \<and>
            findTrashCliCommand env s' =
               (List.find (candidateQualifies env (fs s)) (candidatePaths env), s')))
   \<and>
   (candidateQualifies env files candidate \<longleftrightarrow>
      (\<exists>strm files'. spawn env [candidate, ''--help''] files = Exited 0 strm files' \<or>
                     spawn env [candidate, ''--help''] files = Exited 1 strm files'))"
proof (intro conjI impI)
  assume "cachedTrashCliCommand s = Some cached"
  then show "findTrashCliCommand env s = (cached, s)"
    by (simp add: findTrashCliCommand_def)
next
  assume cold: "cachedTrashCliCommand s = None"
  let ?found = "List.find (candidateQualifies env (fs s)) (candidatePaths env)"
  let ?s' = "s\<lparr>trace := trace s @ map (\<lambda>c. EvSpawn [c, ''--help''])
                                   (probedCandidates env (fs s) (candidatePaths env)),
               cachedTrashCliCommand := Some ?found\<rparr>"
  from cold have "findTrashCliCommand env s = (?found, ?s')"
    by (simp add: findTrashCliCommand_def probeCandidates_find)
  moreover have "findTrashCliCommand env ?s' = (?found, ?s')"
    by (simp add: findTrashCliCommand_def)
  ultimately show "\<exists>s'. findTrashCliCommand env s = (?found, s') \<and>
            cachedTrashCliCommand s' = Some ?found \<and>
            fs s' = fs s \<and>
            trace s' = trace s @ map (\<lambda>c. EvSpawn [c, ''--help''])
                                   (probedCandidates env (fs s) (candidatePaths env)) \<and>
            findTrashCliCommand env s' = (?found, s')"
    by (intro exI [of _ ?s']) simp
next
  show "candidateQualifies env files candidate \<longleftrightarrow>
      (\<exists>strm files'. spawn env [candidate, ''--help''] files = Exited 0 strm files' \<or>
                     spawn env [candidate, ''--help''] files = Exited 1 strm files')"
    by (cases "spawn env [candidate, ''--help''] files") (auto simp add: candidateQualifies_def)
qed

text \<open>
  A bare \<^verbatim>\<open>trash-put\<close> that cannot be spawned, one in \<^verbatim>\<open>/usr/bin\<close> that exits with
  status 2, and one under the Homebrew prefix that exits with status 1: the third is found
  and cached, and a second call probes nothing.
\<close>

theorem helper_probe_is_cached_witness:
  "findTrashCliCommand probe_env demo_state =
     (Some ''/opt/homebrew/opt/trash/bin/trash-put'', probed_state) \<and>
   findTrashCliCommand probe_env probed_state =
     (Some ''/opt/homebrew/opt/trash/bin/trash-put'', probed_state)"
proof -
  have cold: "cachedTrashCliCommand demo_state = None"
    by (simp add: demo_state_def)
  have cands: "candidatePaths probe_env =
    [''trash-put'', ''/usr/bin/trash-put'', ''/opt/homebrew/opt/trash/bin/trash-put'',
     ''/usr/local/opt/trash/bin/trash-put'', ''trash'', ''/usr/bin/trash'',
     ''/opt/homebrew/opt/trash/bin/trash'', ''/usr/local/opt/trash/bin/trash'']"
    by (simp add: candidatePaths_def searchDirs_def candidateNames_def path_eval probe_env_def demo_env_def)
  have q: "candidateQualifies probe_env files c \<longleftrightarrow> c = ''/opt/homebrew/opt/trash/bin/trash-put''"
    for files c
    by (simp add: candidateQualifies_def probe_env_def demo_env_def)
  have found: "List.find (candidateQualifies probe_env (fs demo_state)) (candidatePaths probe_env) =
                 Some ''/opt/homebrew/opt/trash/bin/trash-put''"
    by (simp add: cands q)
  have probed: "probedCandidates probe_env (fs demo_state) (candidatePaths probe_env) =
                  [''trash-put'', ''/usr/bin/trash-put'', ''/opt/homebrew/opt/trash/bin/trash-put'']"
    by (simp add: probedCandidates_def cands q)
  from helper_probe_is_cached
         [of demo_state None probe_env "fs demo_state" "''trash''",
          THEN conjunct2, THEN conjunct1, rule_format, OF cold]
  obtain s' where first: "findTrashCliCommand probe_env demo_state =
                     (Some ''/opt/homebrew/opt/trash/bin/trash-put'', s')"
    and again: "findTrashCliCommand probe_env s' =
                     (Some ''/opt/homebrew/opt/trash/bin/trash-put'', s')"
    by (auto simp add: found)
  have "findTrashCliCommand probe_env demo_state =
          (Some ''/opt/homebrew/opt/trash/bin/trash-put'', probed_state)"
    by (simp add: findTrashCliCommand_def probeCandidates_find cold found probed probed_state_def)
       (simp add: demo_state_def)
  with first again show ?thesis by simp
qed

text \<open>
  Claim C2 says that when the helper was found and exits with a nonzero status and no
  standard-error text, the direct fallback is not attempted and the helper's failure is
  surfaced. The code does otherwise. Here the probe finds \<^verbatim>\<open>trash-put\<close>, which then exits
  with status 1 and empty standard-error text without moving anything: control leaves the
  \<^verbatim>\<open>if\<close> block of lines 59-76, the fallback renames the item into the trash directory,
  and \<^verbatim>\<open>errors\<close> is empty.
\<close>

theorem silent_helper_failure_counterexample:
  "fst (findTrashCliCommand (helper_env 1 []) demo_state) = Some ''trash-put'' \<and>
   spawn (helper_env 1 []) [''trash-put'', ''/work/a.txt''] (fs demo_state) =
     Exited 1 (Stream (Some (Inr (Some []))) None) (fs demo_state) \<and>
   readProcessStream (Stream (Some (Inr (Some []))) None) = [] \<and>
   observe [''/work/a.txt'', ''/home/u/.Trash/a.txt'']
     (movePathsToTrash (helper_env 1 []) [''a.txt''] ''/work'' demo_options demo_state) =
   Some (\<lparr>missing = [], errors = []\<rparr>,
         [EvSpawn [''trash-put'', ''--help''],
          EvSpawn [''trash-put'', ''/work/a.txt''],
          EvRename ''/work/a.txt'' ''/home/u/.Trash/a.txt''],
         [None, Some ''alpha''])"
  by (simp add: movePathsToTrash_def world_eval observe_def toMove_def existingPaths_def nonexistentPaths_def path_eval demo_defs helper_env_def)

text \<open>
  Claim C2 as amended. For a batch without protected paths and with something to move, for
  which a helper command was found and the helper exits with a nonzero status: if its
  standard-error text, trimmed, is not empty, that text is the single \<^verbatim>\<open>errors\<close> entry and
  the fallback is not attempted; if it is empty, the outcome is that of the direct fallback
  run on the file system the helper left, and, when the trash directory is there, every
  item is the source of a rename attempt.
\<close>

theorem helper_failure_outcomes:
  assumes "\<forall>p\<in>set paths. \<not> isProtected env baseDir opts p"
    and "toMove env s baseDir paths \<noteq> []"
    and "findTrashCliCommand env s = (Some command, s1)"
    and "command \<noteq> []"
    and "spawn env (command # map absolute (toMove env s baseDir paths)) (fs s1) =
           Exited exitCode strm files"
    and "exitCode \<noteq> 0"
  shows "(trim (readProcessStream strm) \<noteq> [] \<longrightarrow>
            movePathsToTrash env paths baseDir opts s =
              Some (\<lparr>missing = (if allowMissing opts then [] else nonexistentPaths env s baseDir paths),
                     errors = [trim (readProcessStream strm)]\<rparr>,
                    s1\<lparr>trace := trace s1 @
                                 [EvSpawn (command # map absolute (toMove env s baseDir paths))],
                       fs := files\<rparr>))
         \<and>
         (trim (readProcessStream strm) = [] \<longrightarrow>
            movePathsToTrash env paths baseDir opts s =
              directFallback env (toMove env s baseDir paths)
                (if allowMissing opts then [] else nonexistentPaths env s baseDir paths)
                (s1\<lparr>trace := trace s1 @
                              [EvSpawn (command # map absolute (toMove env s baseDir paths))],
                    fs := files\<rparr>))
         \<and>
         (trim (readProcessStream strm) = [] \<and> finite (dom files) \<and>
          getTrashDirectory env
            (s1\<lparr>trace := trace s1 @
                          [EvSpawn (command # map absolute (toMove env s baseDir paths))],
                fs := files\<rparr>) \<noteq> None \<longrightarrow>
            (\<exists>r s'. movePathsToTrash env paths baseDir opts s = Some (r, s') \<and>
                    renameSources (trace s') =
                      renameSources (trace s1) @ map absolute (toMove env s baseDir paths)))"
proof -
  let ?existing = "toMove env s baseDir paths"
  let ?missing = "if allowMissing opts then [] else nonexistentPaths env s baseDir paths"
  let ?s2 = "s1\<lparr>trace := trace s1 @ [EvSpawn (command # map absolute ?existing)], fs := files\<rparr>"
  have proceeds: "movePathsToTrash env paths baseDir opts s = moveExisting env ?existing ?missing s"
    by (rule movePathsToTrash_proceeds [OF assms(1)])
  have cli: "runTrashCli env command ?existing s1 =
               (if trim (readProcessStream strm) \<noteq> [] then Some [trim (readProcessStream strm)]
                else None, ?s2)"
    using assms(5,6) by (simp add: runTrashCli_def Let_def)
  have loud: "moveExisting env ?existing ?missing s =
                Some (\<lparr>missing = ?missing, errors = [trim (readProcessStream strm)]\<rparr>, ?s2)"
    if "trim (readProcessStream strm) \<noteq> []"
    using that assms(2,3,4) cli by (simp add: moveExisting_def)
  have silent: "moveExisting env ?existing ?missing s = directFallback env ?existing ?missing ?s2"
    if "trim (readProcessStream strm) = []"
    using that assms(2,3,4) cli by (simp add: moveExisting_def)
  have attempted: "\<exists>r s'. moveExisting env ?existing ?missing s = Some (r, s') \<and>
                    renameSources (trace s') = renameSources (trace s1) @ map absolute ?existing"
    if "trim (readProcessStream strm) = [] \<and> finite (dom files) \<and> getTrashDirectory env ?s2 \<noteq> None"
  proof -
    from that have "getTrashDirectory env ?s2 \<noteq> None" and "finite (dom (fs ?s2))"
      by simp_all
    from directFallback_attempts_all [OF this, of ?existing ?missing] that silent
    show ?thesis by auto
  qed
  from loud silent attempted show ?thesis
    unfolding proceeds by blast
qed

text \<open>
  A cached helper that exits with status 1: with standard-error text the text is returned,
  trimmed, and nothing is renamed; without it the fallback moves the item.
\<close>

theorem helper_failure_outcomes_witness:
  "observe [''/work/a.txt'', ''/home/u/.Trash/a.txt'']
     (movePathsToTrash (helper_env 1 ''trash: permission denied\<newline>'') [''a.txt''] ''/work''
        demo_options (demo_state\<lparr>cachedTrashCliCommand := Some (Some ''trash'')\<rparr>)) =
   Some (\<lparr>missing = [], errors = [''trash: permission denied'']\<rparr>,
         [EvSpawn [''trash'', ''/work/a.txt'']],
         [Some ''alpha'', None])
   \<and>
   observe [''/work/a.txt'', ''/home/u/.Trash/a.txt'']
     (movePathsToTrash (helper_env 1 []) [''a.txt''] ''/work''
        demo_options (demo_state\<lparr>cachedTrashCliCommand := Some (Some ''trash'')\<rparr>)) =
   Some (\<lparr>missing = [], errors = []\<rparr>,
         [EvSpawn [''trash'', ''/work/a.txt''], EvRename ''/work/a.txt'' ''/home/u/.Trash/a.txt''],
         [None, Some ''alpha''])"
proof -
  let ?s = "demo_state\<lparr>cachedTrashCliCommand := Some (Some ''trash'')\<rparr>"
  have facts:
    "\<forall>p\<in>set [''a.txt'']. \<not> isProtected (helper_env 1 t) ''/work'' demo_options p"
    "toMove (helper_env 1 t) ?s ''/work'' [''a.txt''] \<noteq> []"
    "findTrashCliCommand (helper_env 1 t) ?s = (Some ''trash'', ?s)"
    "''trash'' \<noteq> []"
    "spawn (helper_env 1 t) (''trash'' # map absolute (toMove (helper_env 1 t) ?s ''/work'' [''a.txt'']))
       (fs ?s) = Exited 1 (Stream (Some (Inr (Some t))) None) (fs ?s)"
    "(1::int) \<noteq> 0"
    for t
    by (simp_all add: isProtected_def world_eval observe_def toMove_def existingPaths_def nonexistentPaths_def path_eval demo_defs helper_env_def)
  note loud = helper_failure_outcomes [OF facts, of "''trash: permission denied\<newline>''", THEN conjunct1]
  note silent = helper_failure_outcomes [OF facts, of "[]", THEN conjunct2, THEN conjunct1]
  have "movePathsToTrash (helper_env 1 ''trash: permission denied\<newline>'') [''a.txt''] ''/work''
          demo_options ?s =
        Some (\<lparr>missing = [], errors = [''trash: permission denied'']\<rparr>,
              ?s\<lparr>trace := [EvSpawn [''trash'', ''/work/a.txt'']], fs := fs ?s\<rparr>)"
    using loud by (simp add: world_eval observe_def toMove_def existingPaths_def nonexistentPaths_def path_eval demo_defs helper_env_def)
  moreover have "observe [''/work/a.txt'', ''/home/u/.Trash/a.txt'']
     (movePathsToTrash (helper_env 1 []) [''a.txt''] ''/work'' demo_options ?s) =
   Some (\<lparr>missing = [], errors = []\<rparr>,
         [EvSpawn [''trash'', ''/work/a.txt''], EvRename ''/work/a.txt'' ''/home/u/.Trash/a.txt''],
         [None, Some ''alpha''])"
    using silent by (simp add: world_eval observe_def toMove_def existingPaths_def nonexistentPaths_def path_eval demo_defs helper_env_def)
  ultimately show ?thesis
    by (simp add: observe_def demo_defs)
qed

subsection \<open>The direct fallback\<close>

text \<open>
  Claim C9. When only finitely many names are occupied in the trash directory,
  \<^verbatim>\<open>buildTrashTarget\<close> returns, and the path it returns does not exist in the state it was
  called in. The path is the first free one of the sequence of candidates, and no two
  candidates of that sequence are equal: every pass of the loop tries a name that was not
  tried before, which is why a free one is reached.
\<close>

theorem buildTrashTarget_terminates:
  assumes "finite (occupiedNames (fs s) trashDir)"
  shows "\<exists>k. buildTrashTarget env trashDir absolutePath s =
               Some (trashCandidate trashDir (basename absolutePath) (date_now env (clock_reads s)) k,
                     s\<lparr>clock_reads := clock_reads s + 1\<rparr>) \<and>
             \<not> existsSync s (trashCandidate trashDir (basename absolutePath) (date_now env (clock_reads s)) k) \<and>
             (\<forall>j<k. existsSync s (trashCandidate trashDir (basename absolutePath) (date_now env (clock_reads s)) j)) \<and>
             (\<forall>i j. i < j \<longrightarrow>
                trashCandidate trashDir (basename absolutePath) (date_now env (clock_reads s)) i \<noteq>
                trashCandidate trashDir (basename absolutePath) (date_now env (clock_reads s)) j)"
proof -
  let ?tc = "trashCandidate trashDir (basename absolutePath) (date_now env (clock_reads s))"
  from buildTrashTarget_loop_least [OF assms basename_no_slash]
  obtain k where
    loop: "buildTrashTarget_loop (fs s) trashDir (basename absolutePath) (date_now env (clock_reads s)) 0
       (join [trashDir, basename absolutePath]) = Some (?tc k)"
    and free: "fs s (?tc k) = None"
    and before: "\<forall>j<k. fs s (?tc j) \<noteq> None"
    by blast
  have distinct: "\<forall>i j. i < j \<longrightarrow> ?tc i \<noteq> ?tc j"
    by (simp add: trashCandidate_distinct [OF basename_no_slash])
  from loop have "buildTrashTarget env trashDir absolutePath s =
                    Some (?tc k, s\<lparr>clock_reads := clock_reads s + 1\<rparr>)"
    by (simp add: buildTrashTarget_def Let_def)
  with free before distinct show ?thesis
    by (auto simp add: existsSync_def)
qed

text \<open>
  A trash directory in which \<^verbatim>\<open>a.txt\<close> and \<^verbatim>\<open>a.txt-1700000000000\<close> are taken.
\<close>

theorem buildTrashTarget_terminates_witness:
  "finite (occupiedNames (fs crowded_state) ''/home/u/.Trash'') \<and>
   buildTrashTarget demo_env ''/home/u/.Trash'' ''/work/a.txt'' crowded_state =
     Some (''/home/u/.Trash/a.txt-1700000000000-1'', crowded_state\<lparr>clock_reads := 1\<rparr>) \<and>
   \<not> existsSync crowded_state ''/home/u/.Trash/a.txt-1700000000000-1''"
proof -
  have "finite (dom (fs crowded_state))"
    by (simp add: demo_defs crowded_state_def)
  then have fin: "finite (occupiedNames (fs crowded_state) ''/home/u/.Trash'')"
    by (rule finite_occupiedNames)
  have run: "buildTrashTarget demo_env ''/home/u/.Trash'' ''/work/a.txt'' crowded_state =
     Some (''/home/u/.Trash/a.txt-1700000000000-1'', crowded_state\<lparr>clock_reads := 1\<rparr>)"
    by (simp add: world_eval path_eval demo_defs crowded_state_def)
  from buildTrashTarget_terminates [OF fin, where env = demo_env and absolutePath = "''/work/a.txt''"] run fin
  show ?thesis
    by (auto simp add: existsSync_def)
qed




text \<open>
  Claim C7. When the rename of an item fails with a cross-device error, the copy is
  attempted, and the removal follows if the copy did not throw. When neither fails, the
  trace shows the rename, the copy and the removal, the destination holds the content the
  source had, and the source no longer exists. When the rename fails with any other error,
  there is no copy and no removal: the error is the item's failure and the file system is
  as before.
\<close>

theorem cross_device_fallback:
  assumes "buildTrashTarget env trashDir (absolute item) s = Some (target, s0)"
    and "renameSync env (absolute item) target s0 = (Some error, s1)"
  shows "(isCrossDeviceError error \<and>
          cp_fault env (fs s) (absolute item) target = None \<and>
          rm_fault env ((fs s)(target := fs s (absolute item))) (absolute item) = None
          \<longrightarrow> (\<exists>s'. moveItem env trashDir item s = Some (None, s') \<and>
                 trace s' = trace s @ [EvRename (absolute item) target,
                                       EvCopy (absolute item) target,
                                       EvRemove (absolute item)] \<and>
                 existsSync s (absolute item) \<and>
                 fs s' target = fs s (absolute item) \<and>
                 \<not> existsSync s' (absolute item)))
         \<and>
         (isCrossDeviceError error
          \<longrightarrow> (\<exists>r s' more. moveItem env trashDir item s = Some (r, s') \<and>
                 trace s' = trace s @ [EvRename (absolute item) target,
                                       EvCopy (absolute item) target] @ more \<and>
                 (more = [] \<or> more = [EvRemove (absolute item)])))
         \<and>
         (\<not> isCrossDeviceError error
          \<longrightarrow> moveItem env trashDir item s = Some (Some error, s1) \<and>
              trace s1 = trace s @ [EvRename (absolute item) target] \<and>
              fs s1 = fs s)"
proof -
  note bt = buildTrashTarget_SomeD [OF assms(1)]
  note rn = renameSync_cases [OF assms(2)]
  from rn bt have s1: "fs s1 = fs s" "trace s1 = trace s @ [EvRename (absolute item) target]"
    by simp_all
  have other: "moveItem env trashDir item s = Some (Some error, s1)" if "\<not> isCrossDeviceError error"
    using assms that by (rule moveItem_rename_failed)
  have cross: "\<exists>s'. moveItem env trashDir item s = Some (None, s') \<and>
                 trace s' = trace s @ [EvRename (absolute item) target,
                                       EvCopy (absolute item) target,
                                       EvRemove (absolute item)] \<and>
                 existsSync s (absolute item) \<and>
                 fs s' target = fs s (absolute item) \<and>
                 \<not> existsSync s' (absolute item)"
    if hyp: "isCrossDeviceError error \<and>
          cp_fault env (fs s) (absolute item) target = None \<and>
          rm_fault env ((fs s)(target := fs s (absolute item))) (absolute item) = None"
  proof -
    from hyp rn bt have src: "fs s (absolute item) \<noteq> None" by auto
    with bt have neq: "absolute item \<noteq> target" by auto
    obtain s2 where cp: "cpSync env (absolute item) target s1 = (None, s2)"
      and s2: "fs s2 = (fs s)(target := fs s (absolute item))"
              "trace s2 = trace s1 @ [EvCopy (absolute item) target]"
      using hyp src s1 by (auto simp add: cpSync_def)
    obtain s3 where rm: "rmSync env (absolute item) s2 = (None, s3)"
      and s3: "fs s3 = (fs s2)(absolute item := None)"
              "trace s3 = trace s2 @ [EvRemove (absolute item)]"
      using hyp s2 by (auto simp add: rmSync_def)
    from moveItem_cross_device [OF assms] hyp cp rm
    have "moveItem env trashDir item s = Some (None, s3)" by simp
    with s1 s2 s3 src neq show ?thesis
      by (auto simp add: existsSync_def)
  qed
  have copied: "\<exists>r s' more. moveItem env trashDir item s = Some (r, s') \<and>
                 trace s' = trace s @ [EvRename (absolute item) target,
                                       EvCopy (absolute item) target] @ more \<and>
                 (more = [] \<or> more = [EvRemove (absolute item)])"
    if exdev: "isCrossDeviceError error"
  proof -
    obtain r2 s2 where cp: "cpSync env (absolute item) target s1 = (r2, s2)"
      by (cases "cpSync env (absolute item) target s1")
    from cpSync_cases [OF cp] s1
    have tr2: "trace s2 = trace s @ [EvRename (absolute item) target, EvCopy (absolute item) target]"
      by simp
    show ?thesis
    proof (cases r2)
      case (Some e)
      with moveItem_cross_device [OF assms exdev] cp
      have "moveItem env trashDir item s = Some (Some e, s2)" by simp
      with tr2 show ?thesis by auto
    next
      case None
      obtain r3 s3 where rm: "rmSync env (absolute item) s2 = (r3, s3)"
        by (cases "rmSync env (absolute item) s2")
      from rmSync_cases [OF rm] tr2
      have "trace s3 = trace s @ [EvRename (absolute item) target, EvCopy (absolute item) target] @
                         [EvRemove (absolute item)]"
        by simp
      moreover from None moveItem_cross_device [OF assms exdev] cp rm
      have "moveItem env trashDir item s = Some (r3, s3)" by simp
      ultimately show ?thesis by blast
    qed
  qed
  from cross copied other s1 show ?thesis by blast
qed

text \<open>
  The same item with a rename that fails with \<^verbatim>\<open>EXDEV\<close> and with one that fails with
  \<^verbatim>\<open>EACCES\<close>.
\<close>

theorem cross_device_fallback_witness:
  "observe [''/work/a.txt'', ''/home/u/.Trash/a.txt'']
     (moveItem exdev_env ''/home/u/.Trash'' item_a demo_state) =
   Some (None,
         [EvRename ''/work/a.txt'' ''/home/u/.Trash/a.txt'',
          EvCopy ''/work/a.txt'' ''/home/u/.Trash/a.txt'',
          EvRemove ''/work/a.txt''],
         [None, Some ''alpha''])
   \<and>
   observe [''/work/a.txt'', ''/home/u/.Trash/a.txt'']
     (moveItem eacces_env ''/home/u/.Trash'' item_a demo_state) =
   Some (Some (JsError (Some ''EACCES'') ''EACCES: permission denied''),
         [EvRename ''/work/a.txt'' ''/home/u/.Trash/a.txt''],
         [Some ''alpha'', None])"
proof
  have bt: "buildTrashTarget exdev_env ''/home/u/.Trash'' (absolute item_a) demo_state =
              Some (''/home/u/.Trash/a.txt'', demo_state\<lparr>clock_reads := 1\<rparr>)"
    by (simp add: world_eval path_eval demo_defs exdev_env_def eacces_env_def item_a_def)
  obtain s1 where rn: "renameSync exdev_env (absolute item_a) ''/home/u/.Trash/a.txt''
                         (demo_state\<lparr>clock_reads := 1\<rparr>) =
                       (Some (JsError (Some ''EXDEV'') ''EXDEV: cross-device link not permitted''), s1)"
    by (simp add: world_eval demo_defs exdev_env_def eacces_env_def item_a_def)
  from cross_device_fallback [OF bt rn]
  obtain s' where "moveItem exdev_env ''/home/u/.Trash'' item_a demo_state = Some (None, s')"
    and "trace s' = trace demo_state @ [EvRename (absolute item_a) ''/home/u/.Trash/a.txt'',
                                       EvCopy (absolute item_a) ''/home/u/.Trash/a.txt'',
                                       EvRemove (absolute item_a)]"
    and "fs s' ''/home/u/.Trash/a.txt'' = fs demo_state (absolute item_a)"
    and "\<not> existsSync s' (absolute item_a)"
    by (auto simp add: demo_defs exdev_env_def eacces_env_def)
  then show "observe [''/work/a.txt'', ''/home/u/.Trash/a.txt'']
     (moveItem exdev_env ''/home/u/.Trash'' item_a demo_state) =
   Some (None,
         [EvRename ''/work/a.txt'' ''/home/u/.Trash/a.txt'',
          EvCopy ''/work/a.txt'' ''/home/u/.Trash/a.txt'',
          EvRemove ''/work/a.txt''],
         [None, Some ''alpha''])"
    by (simp add: observe_def existsSync_def item_a_def demo_state_def)
next
  have bt: "buildTrashTarget eacces_env ''/home/u/.Trash'' (absolute item_a) demo_state =
              Some (''/home/u/.Trash/a.txt'', demo_state\<lparr>clock_reads := 1\<rparr>)"
    by (simp add: world_eval path_eval demo_defs exdev_env_def eacces_env_def item_a_def)
  obtain s1 where rn: "renameSync eacces_env (absolute item_a) ''/home/u/.Trash/a.txt''
                         (demo_state\<lparr>clock_reads := 1\<rparr>) =
                       (Some (JsError (Some ''EACCES'') ''EACCES: permission denied''), s1)"
    by (simp add: world_eval demo_defs exdev_env_def eacces_env_def item_a_def)
  from cross_device_fallback [OF bt rn]
  have "moveItem eacces_env ''/home/u/.Trash'' item_a demo_state =
          Some (Some (JsError (Some ''EACCES'') ''EACCES: permission denied''), s1)"
    and "trace s1 = trace demo_state @ [EvRename (absolute item_a) ''/home/u/.Trash/a.txt'']"
    and "fs s1 = fs demo_state"
    by simp_all
  then show "observe [''/work/a.txt'', ''/home/u/.Trash/a.txt'']
     (moveItem eacces_env ''/home/u/.Trash'' item_a demo_state) =
   Some (Some (JsError (Some ''EACCES'') ''EACCES: permission denied''),
         [EvRename ''/work/a.txt'' ''/home/u/.Trash/a.txt''],
         [Some ''alpha'', None])"
    by (simp add: observe_def item_a_def demo_state_def)
qed

text \<open>
  Claim C6. In the direct fallback, with finitely many paths occupied, the loop returns and
  every item has been the source of a rename attempt, in order, whatever happened to the
  items before it. An item that fails contributes exactly the entry
  \<^verbatim>\<open>Failed to move <raw path> to Trash: <reason>\<close> between the entries of the items before
  it and those of the items after it, which are processed from the state the failure left;
  in that state every other occupied path, the items moved earlier among them, is as it
  was. A rename failure that is not a cross-device error is such a failure, and it leaves
  the file system unchanged.
\<close>

theorem item_failure_is_isolated:
  "(finite (dom (fs s)) \<longrightarrow>
      (\<exists>errs s'. moveItems env trashDir items [] s = Some (errs, s') \<and>
                 renameSources (trace s') = renameSources (trace s) @ map absolute items))
   \<and>
   (moveItems env trashDir earlier [] s = Some (errs1, s1) \<and>
    moveItem env trashDir item s1 = Some (Some error, s2) \<and>
    moveItems env trashDir later [] s2 = Some (errs3, s3)
    \<longrightarrow> moveItems env trashDir (earlier @ item # later) [] s =
          Some (errs1 @
                [''Failed to move '' @ raw item @ '' to Trash: '' @ formatTrashError error] @
                errs3, s3) \<and>
        (\<forall>q. existsSync s1 q \<and> q \<noteq> absolute item \<longrightarrow> fs s2 q = fs s1 q))
   \<and>
   (buildTrashTarget env trashDir (absolute item) s1 = Some (target, s0) \<and>
    renameSync env (absolute item) target s0 = (Some error, s2) \<and>
    \<not> isCrossDeviceError error
    \<longrightarrow> moveItem env trashDir item s1 = Some (Some error, s2) \<and> fs s2 = fs s1)"
proof (intro conjI impI)
  assume fin: "finite (dom (fs s))"
  from moveItems_total [OF fin] obtain errs s'
    where run: "moveItems env trashDir items [] s = Some (errs, s')"
    by blast
  from moveItems_attempts_all [OF run] run
  show "\<exists>errs s'. moveItems env trashDir items [] s = Some (errs, s') \<and>
                 renameSources (trace s') = renameSources (trace s) @ map absolute items"
    by blast
next
  assume hyp: "moveItems env trashDir earlier [] s = Some (errs1, s1) \<and>
    moveItem env trashDir item s1 = Some (Some error, s2) \<and>
    moveItems env trashDir later [] s2 = Some (errs3, s3)"
  let ?entry = "''Failed to move '' @ raw item @ '' to Trash: '' @ formatTrashError error"
  from hyp have "moveItems env trashDir (item # later) [] s1 = Some ([?entry] @ errs3, s3)"
    by (simp add: moveItems_acc [of _ _ _ "[_]"])
  with hyp show "moveItems env trashDir (earlier @ item # later) [] s =
          Some (errs1 @ [?entry] @ errs3, s3)"
    by (simp add: moveItems_append)
  from hyp show "\<forall>q. existsSync s1 q \<and> q \<noteq> absolute item \<longrightarrow> fs s2 q = fs s1 q"
    by (auto simp add: existsSync_def dest: moveItem_keeps_others)
next
  assume hyp: "buildTrashTarget env trashDir (absolute item) s1 = Some (target, s0) \<and>
    renameSync env (absolute item) target s0 = (Some error, s2) \<and>
    \<not> isCrossDeviceError error"
  then show "moveItem env trashDir item s1 = Some (Some error, s2)"
    by (auto intro: moveItem_rename_failed)
  from hyp have "fs s0 = fs s1"
    by (auto dest: buildTrashTarget_SomeD)
  moreover from hyp have "fs s2 = fs s0"
    by (auto dest: renameSync_cases)
  ultimately show "fs s2 = fs s1" by simp
qed

text \<open>
  The rename of \<^verbatim>\<open>/work/a.txt\<close> is denied; \<^verbatim>\<open>/work/b/a.txt\<close>, the next item, is moved.
\<close>

theorem item_failure_is_isolated_witness:
  "finite (dom (fs demo_state)) \<and>
   observe [''/work/a.txt'', ''/work/b/a.txt'', ''/home/u/.Trash/a.txt'']
     (moveItems eacces_env ''/home/u/.Trash'' [item_a, item_b_a] [] demo_state) =
   Some ([''Failed to move a.txt to Trash: EACCES: permission denied''],
         [EvRename ''/work/a.txt'' ''/home/u/.Trash/a.txt'',
          EvRename ''/work/b/a.txt'' ''/home/u/.Trash/a.txt''],
         [Some ''alpha'', None, Some ''beta''])"
proof -
  have fin: "finite (dom (fs demo_state))"
    by (simp add: demo_defs eacces_env_def)
  have earlier: "moveItems eacces_env ''/home/u/.Trash'' [] [] demo_state = Some ([], demo_state)"
    by simp
  have bt: "buildTrashTarget eacces_env ''/home/u/.Trash'' (absolute item_a) demo_state =
              Some (''/home/u/.Trash/a.txt'', demo_state\<lparr>clock_reads := 1\<rparr>)"
    by (simp add: world_eval path_eval demo_defs eacces_env_def item_a_def)
  obtain s2 where rn: "renameSync eacces_env (absolute item_a) ''/home/u/.Trash/a.txt''
                         (demo_state\<lparr>clock_reads := 1\<rparr>) =
                       (Some (JsError (Some ''EACCES'') ''EACCES: permission denied''), s2)"
    and tr2: "trace s2 = [EvRename ''/work/a.txt'' ''/home/u/.Trash/a.txt'']"
    and clk2: "clock_reads s2 = 1"
    by (simp add: world_eval demo_defs eacces_env_def item_a_def)
  note inst = item_failure_is_isolated
               [of demo_state eacces_env "''/home/u/.Trash''" "[item_a, item_b_a]" "[]" "[]" demo_state
                   item_a "JsError (Some ''EACCES'') ''EACCES: permission denied''" s2]
  from inst bt rn
  have failed: "moveItem eacces_env ''/home/u/.Trash'' item_a demo_state =
                  Some (Some (JsError (Some ''EACCES'') ''EACCES: permission denied''), s2)"
    and fs2: "fs s2 = fs demo_state"
    by simp_all
  obtain s3 where later: "moveItems eacces_env ''/home/u/.Trash'' [item_b_a] [] s2 = Some ([], s3)"
    and tr3: "trace s3 = [EvRename ''/work/a.txt'' ''/home/u/.Trash/a.txt'',
          EvRename ''/work/b/a.txt'' ''/home/u/.Trash/a.txt'']"
    and fs3: "map (fs s3) [''/work/a.txt'', ''/work/b/a.txt'', ''/home/u/.Trash/a.txt''] =
                [Some ''alpha'', None, Some ''beta'']"
    by (simp add: world_eval path_eval demo_defs eacces_env_def item_b_a_def tr2 clk2 fs2)
  from inst [of "[item_b_a]" "[]" s3] earlier failed later
  have "moveItems eacces_env ''/home/u/.Trash'' ([] @ item_a # [item_b_a]) [] demo_state =
          Some ([] @ [''Failed to move '' @ raw item_a @ '' to Trash: '' @
                      formatTrashError (JsError (Some ''EACCES'') ''EACCES: permission denied'')] @ [],
                s3)"
    by blast
  with fin tr3 fs3 show ?thesis
    by (simp add: observe_def item_a_def)
qed

subsection \<open>Duplicates\<close>

text \<open>
  Claim C10. For a batch without protected paths, an existing raw path that occurs k times in
  the batch occurs k times in the ``to move'' set, so its absolute form occurs at least k
  times among the absolute paths (more often only when another raw path resolves to the
  same absolute form). When a helper is found, the helper is spawned with exactly these
  absolute paths as arguments, duplicates included; when none is found, with a trash
  directory and finitely many occupied paths, the fallback attempts one rename per entry.
\<close>

theorem duplicates_are_kept:
  assumes "\<forall>p\<in>set paths. \<not> isProtected env baseDir opts p"
    and "rawPath \<in> set paths"
    and "existsSync s (resolvePath env baseDir rawPath)"
  shows "classifyPaths env s baseDir opts paths [] [] =
           Inr (if allowMissing opts then [] else nonexistentPaths env s baseDir paths,
                toMove env s baseDir paths)
         \<and>
         count_list (toMove env s baseDir paths)
           \<lparr>raw = rawPath, absolute = resolvePath env baseDir rawPath\<rparr> = count_list paths rawPath
         \<and>
         count_list paths rawPath \<le>
           count_list (map absolute (toMove env s baseDir paths)) (resolvePath env baseDir rawPath)
         \<and>
         (findTrashCliCommand env s = (Some command, s1) \<and> command \<noteq> [] \<longrightarrow>
            (\<forall>r s'. movePathsToTrash env paths baseDir opts s = Some (r, s') \<longrightarrow>
               (\<exists>more. trace s' =
                  trace s1 @ EvSpawn (command # map absolute (toMove env s baseDir paths)) # more)))
         \<and>
         (findTrashCliCommand env s = (None, s1) \<and> getTrashDirectory env s1 \<noteq> None \<and>
          finite (dom (fs s1)) \<longrightarrow>
            (\<exists>r s'. movePathsToTrash env paths baseDir opts s = Some (r, s') \<and>
                    renameSources (trace s') =
                      renameSources (trace s1) @ map absolute (toMove env s baseDir paths)))"
proof -
  let ?existing = "toMove env s baseDir paths"
  let ?missing = "if allowMissing opts then [] else nonexistentPaths env s baseDir paths"
  from assms(2,3) have nonempty: "?existing \<noteq> []"
    by (auto simp add: toMove_def existingPaths_def filter_empty_conv)
  have proceeds: "movePathsToTrash env paths baseDir opts s = moveExisting env ?existing ?missing s"
    by (rule movePathsToTrash_proceeds [OF assms(1)])
  have classified: "classifyPaths env s baseDir opts paths [] [] = Inr (?missing, ?existing)"
    using assms(1) by (simp add: classifyPaths_accepted)
  have count: "count_list ?existing \<lparr>raw = rawPath, absolute = resolvePath env baseDir rawPath\<rparr> =
                 count_list paths rawPath"
    by (rule count_toMove [OF assms(3)])
  have "count_list ?existing \<lparr>raw = rawPath, absolute = resolvePath env baseDir rawPath\<rparr> \<le>
        count_list (map absolute ?existing)
           (absolute \<lparr>raw = rawPath, absolute = resolvePath env baseDir rawPath\<rparr>)"
    by (rule count_list_map_ge)
  with count have count_abs:
    "count_list paths rawPath \<le> count_list (map absolute ?existing) (resolvePath env baseDir rawPath)"
    by simp
  have helper: "\<exists>more. trace s' = trace s1 @ EvSpawn (command # map absolute ?existing) # more"
    if "findTrashCliCommand env s = (Some command, s1) \<and> command \<noteq> []"
      and "movePathsToTrash env paths baseDir opts s = Some (r, s')" for r s'
    using that nonempty unfolding proceeds by (intro moveExisting_with_helper) auto
  have fallback: "\<exists>r s'. movePathsToTrash env paths baseDir opts s = Some (r, s') \<and>
                    renameSources (trace s') = renameSources (trace s1) @ map absolute ?existing"
    if "findTrashCliCommand env s = (None, s1) \<and> getTrashDirectory env s1 \<noteq> None \<and>
        finite (dom (fs s1))"
    using that nonempty unfolding proceeds by (intro moveExisting_without_helper) auto
  from classified count count_abs helper fallback show ?thesis
    by blast
qed

text \<open>
  \<^verbatim>\<open>a.txt\<close> twice in a batch of three: the helper receives \<^verbatim>\<open>/work/a.txt\<close> twice; the
  fallback tries to rename it twice, and the second attempt fails because the first
  succeeded.
\<close>

theorem duplicates_are_kept_witness:
  "count_list [''a.txt'', ''b/a.txt'', ''a.txt''] ''a.txt'' = 2 \<and>
   observe [''/work/a.txt'']
     (movePathsToTrash (helper_env 0 []) [''a.txt'', ''b/a.txt'', ''a.txt''] ''/work'' demo_options
        (demo_state\<lparr>cachedTrashCliCommand := Some (Some ''trash'')\<rparr>)) =
   Some (\<lparr>missing = [], errors = []\<rparr>,
         [EvSpawn [''trash'', ''/work/a.txt'', ''/work/b/a.txt'', ''/work/a.txt'']],
         [Some ''alpha''])
   \<and>
   observe [''/work/a.txt'', ''/home/u/.Trash/a.txt'', ''/home/u/.Trash/a.txt-1700000000000'']
     (movePathsToTrash demo_env [''a.txt'', ''b/a.txt'', ''a.txt''] ''/work'' demo_options
        (demo_state\<lparr>cachedTrashCliCommand := Some None\<rparr>)) =
   Some (\<lparr>missing = [],
          errors = [''Failed to move a.txt to Trash: ENOENT: no such file or directory, '' @
                    ''rename '' @ quoted ''/work/a.txt'' @ '' -> '' @
                    quoted ''/home/u/.Trash/a.txt-1700000000000-1'']\<rparr>,
         [EvRename ''/work/a.txt'' ''/home/u/.Trash/a.txt'',
          EvRename ''/work/b/a.txt'' ''/home/u/.Trash/a.txt-1700000000000'',
          EvRename ''/work/a.txt'' ''/home/u/.Trash/a.txt-1700000000000-1''],
         [None, Some ''alpha'', Some ''beta''])"
proof -
  let ?paths = "[''a.txt'', ''b/a.txt'', ''a.txt'']"
  let ?s1 = "demo_state\<lparr>cachedTrashCliCommand := Some (Some ''trash'')\<rparr>"
  let ?s2 = "demo_state\<lparr>cachedTrashCliCommand := Some None\<rparr>"
  have in_batch: "''a.txt'' \<in> set ?paths" by simp
  have free1: "\<forall>p\<in>set ?paths. \<not> isProtected (helper_env 0 []) ''/work'' demo_options p"
    by (simp add: isProtected_def path_eval demo_defs helper_env_def)
  have free2: "\<forall>p\<in>set ?paths. \<not> isProtected demo_env ''/work'' demo_options p"
    by (simp add: isProtected_def path_eval demo_defs)
  have ex1: "existsSync ?s1 (resolvePath (helper_env 0 []) ''/work'' ''a.txt'')"
    by (simp add: existsSync_def path_eval demo_defs helper_env_def)
  have ex2: "existsSync ?s2 (resolvePath demo_env ''/work'' ''a.txt'')"
    by (simp add: existsSync_def path_eval demo_defs)
  note with_helper = duplicates_are_kept [OF free1 in_batch ex1, where command = "''trash''"]
  note without_helper = duplicates_are_kept [OF free2 in_batch ex2, where command = "''trash''"]
  from with_helper have c1: "classifyPaths (helper_env 0 [])
         (demo_state\<lparr>cachedTrashCliCommand := Some (Some ''trash'')\<rparr>) ''/work'' demo_options ?paths [] [] =
       Inr (if allowMissing demo_options then []
            else nonexistentPaths (helper_env 0 [])
                   (demo_state\<lparr>cachedTrashCliCommand := Some (Some ''trash'')\<rparr>) ''/work'' ?paths,
            toMove (helper_env 0 []) (demo_state\<lparr>cachedTrashCliCommand := Some (Some ''trash'')\<rparr>)
              ''/work'' ?paths)"
    by simp
  from without_helper have c2: "classifyPaths demo_env
         (demo_state\<lparr>cachedTrashCliCommand := Some None\<rparr>) ''/work'' demo_options ?paths [] [] =
       Inr (if allowMissing demo_options then []
            else nonexistentPaths demo_env
                   (demo_state\<lparr>cachedTrashCliCommand := Some None\<rparr>) ''/work'' ?paths,
            toMove demo_env (demo_state\<lparr>cachedTrashCliCommand := Some None\<rparr>)
              ''/work'' ?paths)"
    by simp
  have "observe [''/work/a.txt'']
     (movePathsToTrash (helper_env 0 []) ?paths ''/work'' demo_options
        (demo_state\<lparr>cachedTrashCliCommand := Some (Some ''trash'')\<rparr>)) =
   Some (\<lparr>missing = [], errors = []\<rparr>,
         [EvSpawn [''trash'', ''/work/a.txt'', ''/work/b/a.txt'', ''/work/a.txt'']],
         [Some ''alpha''])"
    unfolding movePathsToTrash_def c1
    by (simp add: world_eval observe_def toMove_def existingPaths_def nonexistentPaths_def path_eval demo_defs helper_env_def)
  moreover have "observe [''/work/a.txt'', ''/home/u/.Trash/a.txt'', ''/home/u/.Trash/a.txt-1700000000000'']
     (movePathsToTrash demo_env ?paths ''/work'' demo_options
        (demo_state\<lparr>cachedTrashCliCommand := Some None\<rparr>)) =
   Some (\<lparr>missing = [],
          errors = [''Failed to move a.txt to Trash: ENOENT: no such file or directory, '' @
                    ''rename '' @ quoted ''/work/a.txt'' @ '' -> '' @
                    quoted ''/home/u/.Trash/a.txt-1700000000000-1'']\<rparr>,
         [EvRename ''/work/a.txt'' ''/home/u/.Trash/a.txt'',
          EvRename ''/work/b/a.txt'' ''/home/u/.Trash/a.txt-1700000000000'',
          EvRename ''/work/a.txt'' ''/home/u/.Trash/a.txt-1700000000000-1''],
         [None, Some ''alpha'', Some ''beta''])"
    unfolding movePathsToTrash_def c2
    by (simp add: world_eval observe_def toMove_def existingPaths_def nonexistentPaths_def path_eval demo_defs)
  ultimately show ?thesis by simp
qed

end
